theory Spec2Isabelle
  imports Complex_Main
begin

section \<open>Data model\<close>

text \<open>
  The arena engine of the repository: the socket server (\<^verbatim>\<open>src/server.ts\<close>, lines 1-125),
  the client that computes payouts from the server's snapshots (\<^verbatim>\<open>processPayout\<close>, the
  \<^verbatim>\<open>App\<close> component carried in the same file) and the earlier single-process client
  (\<^verbatim>\<open>src/unnamed/part_000\<close>, \<^verbatim>\<open>resolveArena\<close>).

  A JavaScript \<^verbatim>\<open>number\<close> that holds money is modelled as an exact rational: comparison
  and the four operations are those of the source, rounding of IEEE doubles is not part
  of the model. Timestamps (\<^verbatim>\<open>Date.now()\<close>, milliseconds) are integers. The source
  fields \<^verbatim>\<open>id\<close> and \<^verbatim>\<open>text\<close> are written \<open>roast_id\<close>, \<open>arena_id\<close>, \<open>log_id\<close>,
  \<open>user_id\<close>, \<open>roast_text\<close> and \<open>arena_text\<close>.
\<close>

datatype Status = Active | Resolved

record RoastEntry =
  roast_id :: string
  roasterId :: string
  roasterName :: string
  roast_text :: string
  entryStake :: rat
  backedStake :: rat
  myBackedAmount :: rat

record Arena =
  arena_id :: string
  opId :: string
  opName :: string
  opHandle :: string
  opAvatar :: string
  arena_text :: string
  stake :: rat
  endTime :: int
  status :: Status
  winnerRoastId :: "string option"
  roasts :: "RoastEntry list"

record ActivityLog =
  log_id :: string
  message :: string
  timestamp :: int

record UserAccount =
  user_id :: string
  name :: string
  handle :: string
  avatar :: string
  balance :: rat

text \<open>The payload of \<^verbatim>\<open>create-arena\<close>, as \<^verbatim>\<open>handleCreateArena\<close> emits it.\<close>

record ArenaData =
  d_opId :: string
  d_opName :: string
  d_opHandle :: string
  d_opAvatar :: string
  d_text :: string

section \<open>The server\<close>

text \<open>
  The module-level variables \<^verbatim>\<open>arenas\<close> and \<^verbatim>\<open>activityLog\<close> are the server's state.
  Every handler returns the new state together with the messages it emits to all
  sockets, in the order of the \<^verbatim>\<open>io.emit\<close> calls. What a new connection is sent on
  its own socket (the snapshot and the last 10 activity entries) changes no state and is
  left out.
\<close>

record ServerState =
  arenas :: "Arena list"
  activityLog :: "ActivityLog list"

datatype Event = StateUpdate "Arena list" | ActivityUpdate ActivityLog

text \<open>
  What a handler reads from outside the state: the clock, the random arena id, the
  random id and the timestamp that the k-th \<^verbatim>\<open>logActivity\<close> call of the handler draws,
  and the text JavaScript renders for a number inside a template string.
\<close>

record StepEnv =
  now :: int
  randomId :: string
  logStamp :: "nat \<Rightarrow> string \<times> int"
  numberText :: "rat \<Rightarrow> string"

definition logActivity :: "string \<times> int \<Rightarrow> string \<Rightarrow> ActivityLog list \<Rightarrow> ActivityLog list \<times> Event list" where
  "logActivity stamp msg lg =
     (let log = \<lparr>log_id = fst stamp, message = msg, timestamp = snd stamp\<rparr>
      in (take 15 (log # lg), [ActivityUpdate log]))"

text \<open>The UTF-8 bytes of the fire emoji that frames the winner message.\<close>

definition fire :: string where
  "fire = [CHR 0xF0, CHR 0x9F, CHR 0x94, CHR 0xA5]"

text \<open>
  \<^verbatim>\<open>(prev, current) => (current.backedStake > prev.backedStake) ? current : prev\<close>, and
  \<^verbatim>\<open>reduce\<close> without an initial value on an array whose first element is \<open>r\<close>.
\<close>

definition pick :: "RoastEntry \<Rightarrow> RoastEntry \<Rightarrow> RoastEntry" where
  "pick prev current = (if backedStake current > backedStake prev then current else prev)"

definition reduce_winner :: "RoastEntry \<Rightarrow> RoastEntry list \<Rightarrow> RoastEntry" where
  "reduce_winner r rs = foldl pick r rs"

text \<open>
  The body of the tick's \<^verbatim>\<open>map\<close> callback for an arena that passed the guard
  \<^verbatim>\<open>arena.status === 'active' && arena.endTime <= now\<close>: the arena it returns and the
  message it logs.
\<close>

definition resolve_expired :: "Arena \<Rightarrow> Arena \<times> string" where
  "resolve_expired arena =
     (case roasts arena of
        [] \<Rightarrow> (arena\<lparr>status := Resolved\<rparr>,
               ''Arena by '' @ opHandle arena @ '' closed with no roasts.'')
      | r # rs \<Rightarrow>
          (let winner = reduce_winner r rs
           in (arena\<lparr>status := Resolved, winnerRoastId := Some (roast_id winner)\<rparr>,
               fire @ '' ROAST WARS ENDED: '' @ roasterName winner @ '' won the pool! '' @ fire)))"

text \<open>
  \<^verbatim>\<open>arenas.map(...)\<close> of the tick, with the effects of the callback threaded through:
  the activity log, the number of \<^verbatim>\<open>logActivity\<close> calls made so far, the emitted
  messages and the flag \<^verbatim>\<open>didUpdate\<close>.
\<close>

fun tick_loop :: "StepEnv \<Rightarrow> Arena list \<Rightarrow> ActivityLog list \<Rightarrow> nat \<Rightarrow>
    Arena list \<times> ActivityLog list \<times> Event list \<times> bool" where
  "tick_loop env [] lg k = ([], lg, [], False)"
| "tick_loop env (arena # rest) lg k =
     (if status arena = Active \<and> endTime arena \<le> now env then
        (case resolve_expired arena of (arena', msg) \<Rightarrow>
         case logActivity (logStamp env k) msg lg of (lg1, ev) \<Rightarrow>
         case tick_loop env rest lg1 (Suc k) of (rest', lg2, evs, didUpdate) \<Rightarrow>
           (arena' # rest', lg2, ev @ evs, True))
      else
        (case tick_loop env rest lg k of (rest', lg2, evs, didUpdate) \<Rightarrow>
           (arena # rest', lg2, evs, didUpdate)))"

definition tick :: "StepEnv \<Rightarrow> ServerState \<Rightarrow> ServerState \<times> Event list" where
  "tick env s =
     (case tick_loop env (arenas s) (activityLog s) 0 of (arenas', lg, evs, didUpdate) \<Rightarrow>
        (\<lparr>arenas = arenas', activityLog = lg\<rparr>,
         evs @ (if didUpdate then [StateUpdate arenas'] else [])))"

definition join :: "StepEnv \<Rightarrow> string \<Rightarrow> ServerState \<Rightarrow> ServerState \<times> Event list" where
  "join env userHandle s =
     (case logActivity (logStamp env 0) (userHandle @ '' joined the room.'') (activityLog s) of
        (lg, ev) \<Rightarrow> (s\<lparr>activityLog := lg\<rparr>, ev))"

definition create_arena :: "StepEnv \<Rightarrow> ArenaData \<Rightarrow> ServerState \<Rightarrow> ServerState \<times> Event list" where
  "create_arena env arenaData s =
     (let newArena = \<lparr>arena_id = randomId env, opId = d_opId arenaData,
            opName = d_opName arenaData, opHandle = d_opHandle arenaData,
            opAvatar = d_opAvatar arenaData, arena_text = d_text arenaData,
            stake = 5 / 100, endTime = now env + 5 * 60 * 1000, status = Active,
            winnerRoastId = None, roasts = []\<rparr>;
          arenas' = newArena # arenas s
      in case logActivity (logStamp env 0) (opHandle newArena @ '' dropped a new Ragebait!'')
                (activityLog s) of
           (lg, ev) \<Rightarrow> (\<lparr>arenas = arenas', activityLog = lg\<rparr>, ev @ [StateUpdate arenas']))"

definition submit_roast :: "StepEnv \<Rightarrow> string \<Rightarrow> RoastEntry \<Rightarrow> ServerState \<Rightarrow> ServerState \<times> Event list" where
  "submit_roast env arenaId roastData s =
     (let arenas' = map (\<lambda>arena. if arena_id arena \<noteq> arenaId then arena
                                  else arena\<lparr>roasts := roasts arena @ [roastData]\<rparr>) (arenas s)
      in case logActivity (logStamp env 0)
                (roasterName roastData @ '' entered the arena with a roast.'') (activityLog s) of
           (lg, ev) \<Rightarrow> (\<lparr>arenas = arenas', activityLog = lg\<rparr>, ev @ [StateUpdate arenas']))"

definition stake_roast :: "StepEnv \<Rightarrow> string \<Rightarrow> string \<Rightarrow> rat \<Rightarrow> string \<Rightarrow> ServerState \<Rightarrow> ServerState \<times> Event list" where
  "stake_roast env arenaId roastId amount userHandle s =
     (let arenas' = map (\<lambda>arena. if arena_id arena \<noteq> arenaId then arena
                          else arena\<lparr>roasts := map (\<lambda>roast. if roast_id roast \<noteq> roastId then roast
                                   else roast\<lparr>backedStake := backedStake roast + amount\<rparr>)
                                 (roasts arena)\<rparr>) (arenas s)
      in case logActivity (logStamp env 0)
                (userHandle @ '' staked '' @ numberText env amount @ '' MND on a roast!'')
                (activityLog s) of
           (lg, ev) \<Rightarrow> (\<lparr>arenas = arenas', activityLog = lg\<rparr>, ev @ [StateUpdate arenas']))"

text \<open>What reaches the server: a tick of the interval timer or a message of a socket.\<close>

datatype Input =
    Tick
  | Join string
  | CreateArena ArenaData
  | SubmitRoast string RoastEntry
  | StakeRoast string string rat string

fun step :: "StepEnv \<Rightarrow> Input \<Rightarrow> ServerState \<Rightarrow> ServerState \<times> Event list" where
  "step env Tick s = tick env s"
| "step env (Join userHandle) s = join env userHandle s"
| "step env (CreateArena arenaData) s = create_arena env arenaData s"
| "step env (SubmitRoast arenaId roastData) s = submit_roast env arenaId roastData s"
| "step env (StakeRoast arenaId roastId amount userHandle) s =
     stake_roast env arenaId roastId amount userHandle s"

text \<open>
  The server runs its inputs to completion one after the other; \<open>run\<close> returns the last
  state and everything emitted on the way.
\<close>

fun run :: "(StepEnv \<times> Input) list \<Rightarrow> ServerState \<Rightarrow> ServerState \<times> Event list" where
  "run [] s = (s, [])"
| "run ((env, i) # rest) s =
     (case step env i s of (s1, ev) \<Rightarrow>
      case run rest s1 of (s2, evs) \<Rightarrow> (s2, ev @ evs))"

text \<open>\<^verbatim>\<open>let arenas: any[] = []; let activityLog: any[] = [];\<close>\<close>

definition init :: ServerState where
  "init = \<lparr>arenas = [], activityLog = []\<rparr>"

section \<open>The clients\<close>

text \<open>
  The payout of the logged-in user for a resolved arena and its winning roast: the
  variable \<^verbatim>\<open>payout\<close> after the three steps, written the same way in \<^verbatim>\<open>processPayout\<close>
  (\<^verbatim>\<open>src/server.ts\<close>, lines 236-260) and in \<^verbatim>\<open>resolveArena\<close> (\<^verbatim>\<open>part_000\<close>, lines 103-132).
\<close>

definition losingBackingPool :: "Arena \<Rightarrow> RoastEntry \<Rightarrow> rat" where
  "losingBackingPool arena winner =
     foldl (\<lambda>sum r. sum + backedStake r) 0
       (filter (\<lambda>r. roast_id r \<noteq> roast_id winner) (roasts arena))"

definition payout_of :: "UserAccount \<Rightarrow> Arena \<Rightarrow> RoastEntry \<Rightarrow> rat" where
  "payout_of currentUser arena winner =
     (let winnerBackingPool = backedStake winner;
          payout0 = 0;
          payout1 =
            (if myBackedAmount winner > 0 \<and> winnerBackingPool > 0 then
               (let userShareRatio = myBackedAmount winner / winnerBackingPool;
                    profit = userShareRatio * (9 / 10 * losingBackingPool arena winner)
                in payout0 + (myBackedAmount winner + profit))
             else payout0);
          payout2 =
            (if roasterId winner = user_id currentUser then
               payout1 + (7 / 10 * stake arena
                          + 7 / 10 * (of_nat (length (roasts arena)) - 1) * (1 / 100))
             else payout1);
          payout3 =
            (if opId arena = user_id currentUser then
               payout2 + 5 / 100 * (losingBackingPool arena winner + winnerBackingPool)
             else payout2)
      in payout3)"

text \<open>\<^verbatim>\<open>if (payout > 0) setCurrentUser(prev => prev ? {...prev, balance: prev.balance + payout} : null)\<close>\<close>

definition credit :: "UserAccount \<Rightarrow> rat \<Rightarrow> UserAccount" where
  "credit u payout = (if payout > 0 then u\<lparr>balance := balance u + payout\<rparr> else u)"

text \<open>
  \<^verbatim>\<open>processPayout\<close> of the networked client: the logged-in user after the call. A
  missing and an empty \<^verbatim>\<open>winnerRoastId\<close> are both falsy for \<^verbatim>\<open>!arena.winnerRoastId\<close>.
\<close>

definition processPayout :: "UserAccount option \<Rightarrow> Arena \<Rightarrow> UserAccount option" where
  "processPayout currentUser arena =
     (case currentUser of
        None \<Rightarrow> currentUser
      | Some u \<Rightarrow>
          (if roasts arena = [] then currentUser
           else (case winnerRoastId arena of
                   None \<Rightarrow> currentUser
                 | Some wid \<Rightarrow>
                     (if wid = [] then currentUser
                      else (case find (\<lambda>r. roast_id r = wid) (roasts arena) of
                              None \<Rightarrow> currentUser
                            | Some winner \<Rightarrow> Some (credit u (payout_of u arena winner)))))))"

text \<open>
  The bytes that stand where the emoji stood in the winner message of \<^verbatim>\<open>part_000\<close>.
\<close>

definition fire_local :: string where
  "fire_local = [CHR 0xEF, CHR 0xA3, CHR 0xBF, CHR 0xC3, CHR 0xBC, CHR 0xC3, CHR 0xAE,
                 CHR 0xE2, CHR 0x80, CHR 0xA2]"

text \<open>
  \<^verbatim>\<open>resolveArena\<close> of the single-process client (\<^verbatim>\<open>part_000\<close>): the arena it returns,
  the message it logs and the logged-in user after the call.
\<close>

definition resolveArena :: "UserAccount option \<Rightarrow> Arena \<Rightarrow> Arena \<times> string \<times> UserAccount option" where
  "resolveArena currentUser arena =
     (case roasts arena of
        [] \<Rightarrow> (arena\<lparr>status := Resolved\<rparr>,
               ''Arena by '' @ opHandle arena @ '' closed with no roasts.'', currentUser)
      | r # rs \<Rightarrow>
          (let winner = reduce_winner r rs
           in (arena\<lparr>status := Resolved, winnerRoastId := Some (roast_id winner)\<rparr>,
               fire_local @ '' ROAST WARS ENDED: '' @ roasterName winner @ '' won the pool! ''
                 @ fire_local,
               (case currentUser of
                  None \<Rightarrow> None
                | Some u \<Rightarrow> Some (credit u (payout_of u arena winner))))))"

text \<open>
  The networked client (\<^verbatim>\<open>src/server.ts\<close>, lines 174-342). Its state: the logged-in user,
  the \<^verbatim>\<open>arenas\<close> of the component and \<^verbatim>\<open>prevArenasRef.current\<close>.
\<close>

record ClientState =
  currentUser :: "UserAccount option"
  clientArenas :: "Arena list"
  prevArenas :: "Arena list"

text \<open>
  The handler of \<^verbatim>\<open>state-update\<close> (lines 199-213): the snapshot replaces the local
  arenas, \<^verbatim>\<open>processPayout\<close> is called on every arena of the snapshot that was \<open>Active\<close> in
  the previous snapshot and is \<open>Resolved\<close> now, and the snapshot becomes the previous one.
  \<^verbatim>\<open>processPayout\<close> tests the user of its closure and adds to the balance of the latest
  state; the two differ in the balance only, so the user is passed from call to call.
\<close>

definition on_state_update :: "Arena list \<Rightarrow> ClientState \<Rightarrow> ClientState" where
  "on_state_update serverArenas c =
     c\<lparr>clientArenas := serverArenas,
       currentUser :=
         (if currentUser c = None then currentUser c
          else foldl (\<lambda>cu arena.
                 (case find (\<lambda>a. arena_id a = arena_id arena) (prevArenas c) of
                    None \<Rightarrow> cu
                  | Some oldArena \<Rightarrow>
                      (if status oldArena = Active \<and> status arena = Resolved
                       then processPayout cu arena else cu)))
               (currentUser c) serverArenas),
       prevArenas := serverArenas\<rparr>"

text \<open>
  \<^verbatim>\<open>handleStakeOnRoast\<close> (lines 301-319): the new state and the message emitted, if any.
  The stake is added to \<^verbatim>\<open>myBackedAmount\<close> in the local arenas only.
\<close>

definition handleStakeOnRoast :: "string \<Rightarrow> string \<Rightarrow> ClientState \<Rightarrow> ClientState \<times> Input option" where
  "handleStakeOnRoast arenaId roastId c =
     (let amount = 5 / 100
      in case currentUser c of
           None \<Rightarrow> (c, None)
         | Some u \<Rightarrow>
             (if balance u < amount then (c, None)
              else (c\<lparr>currentUser := Some (u\<lparr>balance := balance u - amount\<rparr>),
                      clientArenas := map (\<lambda>a. if arena_id a \<noteq> arenaId then a
                          else a\<lparr>roasts := map (\<lambda>r. if roast_id r = roastId
                                   then r\<lparr>myBackedAmount := myBackedAmount r + amount\<rparr> else r)
                                 (roasts a)\<rparr>) (clientArenas c)\<rparr>,
                    Some (StakeRoast arenaId roastId amount (handle u)))))"

section \<open>Notions used in the statements\<close>

text \<open>The guard of the tick: \<^verbatim>\<open>arena.status === 'active' && arena.endTime <= now\<close>.\<close>

definition expired :: "StepEnv \<Rightarrow> Arena \<Rightarrow> bool" where
  "expired env arena \<longleftrightarrow> status arena = Active \<and> endTime arena \<le> now env"

text \<open>What the callback of the tick returns for one arena.\<close>

definition settle :: "StepEnv \<Rightarrow> Arena \<Rightarrow> Arena" where
  "settle env arena = (if expired env arena then fst (resolve_expired arena) else arena)"

text \<open>The activity entry that the k-th \<^verbatim>\<open>logActivity\<close> call of a tick creates for an arena.\<close>

definition tick_log :: "StepEnv \<Rightarrow> nat \<Rightarrow> Arena \<Rightarrow> ActivityLog" where
  "tick_log env k arena =
     \<lparr>log_id = fst (logStamp env k), message = snd (resolve_expired arena),
      timestamp = snd (logStamp env k)\<rparr>"

text \<open>The activity entries and the arena snapshots among emitted messages, in order.\<close>

fun logs_of :: "Event list \<Rightarrow> ActivityLog list" where
  "logs_of [] = []"
| "logs_of (ActivityUpdate l # evs) = l # logs_of evs"
| "logs_of (StateUpdate a # evs) = logs_of evs"

fun snapshots_of :: "Event list \<Rightarrow> Arena list list" where
  "snapshots_of [] = []"
| "snapshots_of (StateUpdate a # evs) = a # snapshots_of evs"
| "snapshots_of (ActivityUpdate l # evs) = snapshots_of evs"

text \<open>The activity entries that \<^verbatim>\<open>submit-roast\<close> and \<^verbatim>\<open>stake-roast\<close> create.\<close>

definition submit_log :: "StepEnv \<Rightarrow> RoastEntry \<Rightarrow> ActivityLog" where
  "submit_log env roastData =
     \<lparr>log_id = fst (logStamp env 0),
      message = roasterName roastData @ '' entered the arena with a roast.'',
      timestamp = snd (logStamp env 0)\<rparr>"

definition stake_log :: "StepEnv \<Rightarrow> rat \<Rightarrow> string \<Rightarrow> ActivityLog" where
  "stake_log env amount userHandle =
     \<lparr>log_id = fst (logStamp env 0),
      message = userHandle @ '' staked '' @ numberText env amount @ '' MND on a roast!'',
      timestamp = snd (logStamp env 0)\<rparr>"

text \<open>The activity entry that \<^verbatim>\<open>join\<close> creates.\<close>

definition join_entry :: "StepEnv \<Rightarrow> string \<Rightarrow> ActivityLog" where
  "join_entry env userHandle =
     \<lparr>log_id = fst (logStamp env 0), message = userHandle @ '' joined the room.'',
      timestamp = snd (logStamp env 0)\<rparr>"

text \<open>The formula of the specification: \<^verbatim>\<open>share_b = c_b + (c_b / W) * 0.9 * L\<close>.\<close>

definition share_formula :: "rat \<Rightarrow> rat \<Rightarrow> rat \<Rightarrow> rat" where
  "share_formula c W L = c + (c / W) * (9 / 10) * L"

text \<open>
  A message as the repository's client sends it: \<^verbatim>\<open>handleSubmitRoast\<close> (lines 321-342)
  submits every roast with \<^verbatim>\<open>backedStake: 0\<close> and \<^verbatim>\<open>myBackedAmount: 0\<close>.
\<close>

fun from_client :: "Input \<Rightarrow> bool" where
  "from_client (SubmitRoast arenaId roastData) \<longleftrightarrow>
     backedStake roastData = 0 \<and> myBackedAmount roastData = 0"
| "from_client i \<longleftrightarrow> True"

text \<open>No roast of the collection records an amount backed by a user.\<close>

definition untracked :: "Arena list \<Rightarrow> bool" where
  "untracked as \<longleftrightarrow> (\<forall>a\<in>set as. \<forall>r\<in>set (roasts a). myBackedAmount r = 0)"

text \<open>
  Position \<open>i\<close> holds the first entry of \<open>rs\<close> whose \<open>backedStake\<close> is maximal.
\<close>

definition earliest_maximal :: "RoastEntry list \<Rightarrow> nat \<Rightarrow> bool" where
  "earliest_maximal rs i \<longleftrightarrow>
     i < length rs
     \<and> (\<forall>j<length rs. backedStake (rs ! j) \<le> backedStake (rs ! i))
     \<and> (\<forall>j<i. backedStake (rs ! j) < backedStake (rs ! i))"

text \<open>
  \<^verbatim>\<open>create-arena\<close> puts the new arena in front and nothing removes one, so the arena at
  position \<open>n\<close> of \<open>s\<close> stands, in a later state \<open>s'\<close>, further back by the number of
  arenas created since.
\<close>

definition carried :: "ServerState \<Rightarrow> ServerState \<Rightarrow> nat \<Rightarrow> Arena" where
  "carried s s' n = arenas s' ! (n + (length (arenas s') - length (arenas s)))"

text \<open>The fields of an arena that no handler writes after creation.\<close>

definition same_identity :: "Arena \<Rightarrow> Arena \<Rightarrow> bool" where
  "same_identity a a' \<longleftrightarrow>
     arena_id a' = arena_id a \<and> opId a' = opId a \<and> opName a' = opName a
     \<and> opHandle a' = opHandle a \<and> opAvatar a' = opAvatar a \<and> arena_text a' = arena_text a
     \<and> stake a' = stake a \<and> endTime a' = endTime a"

text \<open>
  What every handler does to an arena that is already in the store: it leaves the
  fields of \<open>same_identity\<close> alone, a \<open>Resolved\<close> arena stays \<open>Resolved\<close>, and an arena
  that is \<open>Active\<close> afterwards was \<open>Active\<close> before, with the same \<open>winnerRoastId\<close>.
\<close>

definition keeps :: "(Arena \<Rightarrow> Arena) \<Rightarrow> bool" where
  "keeps f \<longleftrightarrow>
     (\<forall>a. same_identity a (f a)
          \<and> (status a = Resolved \<longrightarrow> status (f a) = Resolved)
          \<and> (status (f a) = Active \<longrightarrow> status a = Active \<and> winnerRoastId (f a) = winnerRoastId a))"

section \<open>Concrete inputs\<close>

text \<open>
  The arena of \<^verbatim>\<open>MOCK_ARENAS\<close> (\<^verbatim>\<open>part_000\<close>, lines 44-60), loaded at time \<open>t\<close>, and
  a variant of it in which both roasts are backed alike.
\<close>

definition mock_r1 :: RoastEntry where
  "mock_r1 = \<lparr>roast_id = ''r1'', roasterId = ''u2'', roasterName = ''Sankalp'',
     roast_text = ''Skill issue bro.'', entryStake = 1 / 100, backedStake = 7 / 100,
     myBackedAmount = 0\<rparr>"

definition mock_r2 :: RoastEntry where
  "mock_r2 = \<lparr>roast_id = ''r2'', roasterId = ''u3'', roasterName = ''Aman'',
     roast_text = ''Bro writes require() and feels powerful.'', entryStake = 1 / 100,
     backedStake = 4 / 100, myBackedAmount = 0\<rparr>"

definition mock_arena :: "int \<Rightarrow> RoastEntry list \<Rightarrow> Arena" where
  "mock_arena t rs = \<lparr>arena_id = ''a1'', opId = ''u1'', opName = ''DuveshTheDev'',
     opHandle = ''@duvesh_dev'', opAvatar = ''D'',
     arena_text = ''I use ChatGPT for every API call. Documentation is for boomers.'',
     stake = 5 / 100, endTime = t + 5 * 60 * 1000, status = Active, winnerRoastId = None,
     roasts = rs\<rparr>"

definition tied_roasts :: "RoastEntry list" where
  "tied_roasts = [mock_r1, mock_r2\<lparr>backedStake := 7 / 100\<rparr>]"

definition mock_store :: "RoastEntry list \<Rightarrow> ServerState" where
  "mock_store rs = \<lparr>arenas = [mock_arena 0 rs], activityLog = []\<rparr>"

text \<open>An environment whose clock reads \<open>t\<close>, and a payload, a user and a late roast.\<close>

definition env_at :: "int \<Rightarrow> StepEnv" where
  "env_at t = \<lparr>now = t, randomId = ''k3x9qz'', logStamp = (\<lambda>k. (''0.42'', t)),
     numberText = (\<lambda>x. ''0.05'')\<rparr>"

definition bait :: ArenaData where
  "bait = \<lparr>d_opId = ''dev_7'', d_opName = ''Duvesh'', d_opHandle = ''@duvesh_dev'',
     d_opAvatar = ''D'', d_text = ''Tabs are better than spaces.''\<rparr>"

definition late_roast :: RoastEntry where
  "late_roast = \<lparr>roast_id = ''r9'', roasterId = ''dev_8'', roasterName = ''Aman'',
     roast_text = ''Too late.'', entryStake = 1 / 100, backedStake = 0, myBackedAmount = 0\<rparr>"

text \<open>
  The store after the mock arena was resolved at its deadline, and inputs that reach
  the server later: a stake on the resolved arena, a new arena, a tick.
\<close>

definition resolved_store :: ServerState where
  "resolved_store = fst (tick (env_at 300000) (mock_store [mock_r1, mock_r2]))"

definition later_inputs :: "(StepEnv \<times> Input) list" where
  "later_inputs = [(env_at 300500, StakeRoast ''a1'' ''r2'' (5 / 100) ''@riya''),
                   (env_at 400000, CreateArena bait),
                   (env_at 700000, Tick)]"

text \<open>A fresh server after one \<^verbatim>\<open>create-arena\<close>, and sixteen joins in a row.\<close>

definition fresh_store :: ServerState where
  "fresh_store = fst (run [(env_at 0, CreateArena bait)] init)"

definition joins :: "(StepEnv \<times> Input) list" where
  "joins = replicate 16 (env_at 5, Join ''@riya'')"

definition backer :: UserAccount where
  "backer = \<lparr>user_id = ''dev_9'', name = ''Riya'', handle = ''@riya'', avatar = ''R'',
     balance = 10\<rparr>"

text \<open>
  A session of the networked application from a fresh server: an arena is created, two
  roasts are submitted, the user \<open>backer\<close> stakes on the first roast through
  \<^verbatim>\<open>handleStakeOnRoast\<close>, and the tick resolves the arena at its deadline. Afterwards two
  more stakes reach the server for the second roast. In another session the arena is
  resolved empty and a roast is submitted to it later.
\<close>

definition roast_a :: RoastEntry where
  "roast_a = \<lparr>roast_id = ''ra'', roasterId = ''dev_8'', roasterName = ''Aman'',
     roast_text = ''Spaces, always.'', entryStake = 1 / 100, backedStake = 0,
     myBackedAmount = 0\<rparr>"

definition roast_b :: RoastEntry where
  "roast_b = \<lparr>roast_id = ''rb'', roasterId = ''dev_6'', roasterName = ''Neel'',
     roast_text = ''Nobody asked.'', entryStake = 1 / 100, backedStake = 0,
     myBackedAmount = 0\<rparr>"

definition bait_arena :: Arena where
  "bait_arena = \<lparr>arena_id = ''k3x9qz'', opId = ''dev_7'', opName = ''Duvesh'',
     opHandle = ''@duvesh_dev'', opAvatar = ''D'', arena_text = ''Tabs are better than spaces.'',
     stake = 5 / 100, endTime = 300000, status = Active, winnerRoastId = None, roasts = []\<rparr>"

definition first_inputs :: "(StepEnv \<times> Input) list" where
  "first_inputs = [(env_at 0, CreateArena bait),
              (env_at 1000, SubmitRoast ''k3x9qz'' roast_a),
              (env_at 2000, SubmitRoast ''k3x9qz'' roast_b)]"

definition staked_inputs :: "(StepEnv \<times> Input) list" where
  "staked_inputs = first_inputs @ [(env_at 3000, StakeRoast ''k3x9qz'' ''ra'' (5 / 100) ''@riya'')]"

definition settled_inputs :: "(StepEnv \<times> Input) list" where
  "settled_inputs = staked_inputs @ [(env_at 300000, Tick)]"

definition outbid_inputs :: "(StepEnv \<times> Input) list" where
  "outbid_inputs = settled_inputs @
     [(env_at 300500, StakeRoast ''k3x9qz'' ''rb'' (5 / 100) ''@neel''),
      (env_at 300600, StakeRoast ''k3x9qz'' ''rb'' (5 / 100) ''@neel'')]"

definition late_entry_inputs :: "(StepEnv \<times> Input) list" where
  "late_entry_inputs = [(env_at 0, CreateArena bait), (env_at 300000, Tick),
                        (env_at 300500, SubmitRoast ''k3x9qz'' roast_a)]"

definition joined_client :: ClientState where
  "joined_client = on_state_update (arenas (fst (run first_inputs init)))
     \<lparr>currentUser = Some backer, clientArenas = [], prevArenas = []\<rparr>"

definition staked_client :: ClientState where
  "staked_client = on_state_update (arenas (fst (run (staked_inputs) init)))
     (fst (handleStakeOnRoast ''k3x9qz'' ''ra'' joined_client))"

section \<open>The winner of the reduce\<close>

lemma reduce_winner_index:
  "\<exists>i<length (r # rs). reduce_winner r rs = (r # rs) ! i
      \<and> (\<forall>j<length (r # rs). backedStake ((r # rs) ! j) \<le> backedStake ((r # rs) ! i))
      \<and> (\<forall>j<i. backedStake ((r # rs) ! j) < backedStake ((r # rs) ! i))"
proof (induction rs rule: rev_induct)
  case Nil
  show ?case by (simp add: reduce_winner_def)
next
  case (snoc x xs)
  define L where "L = r # xs"
  from snoc obtain i where i: "i < length L" "reduce_winner r xs = L ! i"
    and le: "\<forall>j<length L. backedStake (L ! j) \<le> backedStake (L ! i)"
    and lt: "\<forall>j<i. backedStake (L ! j) < backedStake (L ! i)"
    unfolding L_def by blast
  have app: "r # xs @ [x] = L @ [x]" by (simp add: L_def)
  have step: "reduce_winner r (xs @ [x]) = pick (L ! i) x"
    using i(2) by (simp add: reduce_winner_def)
  show ?case
  proof (cases "backedStake x > backedStake (L ! i)")
    case True
    have "reduce_winner r (xs @ [x]) = (L @ [x]) ! length L"
      using True step by (simp add: pick_def nth_append)
    moreover have "\<forall>j<length (L @ [x]). backedStake ((L @ [x]) ! j) \<le> backedStake ((L @ [x]) ! length L)"
    proof (intro allI impI)
      fix j assume "j < length (L @ [x])"
      then consider "j < length L" | "j = length L" by fastforce
      then show "backedStake ((L @ [x]) ! j) \<le> backedStake ((L @ [x]) ! length L)"
      proof cases
        case 1
        then have "backedStake (L ! j) \<le> backedStake (L ! i)" using le by blast
        with True 1 show ?thesis by (simp add: nth_append)
      next
        case 2
        then show ?thesis by simp
      qed
    qed
    moreover have "\<forall>j<length L. backedStake ((L @ [x]) ! j) < backedStake ((L @ [x]) ! length L)"
    proof (intro allI impI)
      fix j assume 1: "j < length L"
      then have "backedStake (L ! j) \<le> backedStake (L ! i)" using le by blast
      with True 1 show "backedStake ((L @ [x]) ! j) < backedStake ((L @ [x]) ! length L)"
        by (simp add: nth_append)
    qed
    ultimately show ?thesis unfolding app by (intro exI [of _ "length L"]) simp
  next
    case False
    have "reduce_winner r (xs @ [x]) = (L @ [x]) ! i"
      using False step i(1) by (simp add: pick_def nth_append)
    moreover have "\<forall>j<length (L @ [x]). backedStake ((L @ [x]) ! j) \<le> backedStake ((L @ [x]) ! i)"
    proof (intro allI impI)
      fix j assume "j < length (L @ [x])"
      then consider "j < length L" | "j = length L" by fastforce
      then show "backedStake ((L @ [x]) ! j) \<le> backedStake ((L @ [x]) ! i)"
      proof cases
        case 1
        then have "backedStake (L ! j) \<le> backedStake (L ! i)" using le by blast
        with 1 i(1) show ?thesis by (simp add: nth_append)
      next
        case 2
        with False i(1) show ?thesis by (simp add: nth_append)
      qed
    qed
    moreover have "\<forall>j<i. backedStake ((L @ [x]) ! j) < backedStake ((L @ [x]) ! i)"
    proof (intro allI impI)
      fix j assume 1: "j < i"
      then have "backedStake (L ! j) < backedStake (L ! i)" using lt by blast
      with 1 i(1) show "backedStake ((L @ [x]) ! j) < backedStake ((L @ [x]) ! i)"
        by (simp add: nth_append)
    qed
    moreover have "i < length (L @ [x])" using i(1) by simp
    ultimately show ?thesis unfolding app by blast
  qed
qed

section \<open>The loop of the tick\<close>

lemma logs_of_append: "logs_of (xs @ ys) = logs_of xs @ logs_of ys"
  by (induction xs rule: logs_of.induct) auto

lemma snapshots_of_append: "snapshots_of (xs @ ys) = snapshots_of xs @ snapshots_of ys"
  by (induction xs rule: snapshots_of.induct) auto

lemma tick_loop_expired:
  "expired env a \<Longrightarrow>
   tick_loop env (a # as) lg k =
     (fst (resolve_expired a) # fst (tick_loop env as (take 15 (tick_log env k a # lg)) (Suc k)),
      fst (snd (tick_loop env as (take 15 (tick_log env k a # lg)) (Suc k))),
      ActivityUpdate (tick_log env k a)
        # fst (snd (snd (tick_loop env as (take 15 (tick_log env k a # lg)) (Suc k)))),
      True)"
  by (cases "resolve_expired a";
      cases "tick_loop env as (take 15 (tick_log env k a # lg)) (Suc k)")
     (simp add: expired_def logActivity_def tick_log_def Let_def)

lemma tick_loop_skip:
  "\<not> expired env a \<Longrightarrow>
   tick_loop env (a # as) lg k =
     (a # fst (tick_loop env as lg k), snd (tick_loop env as lg k))"
  by (cases "tick_loop env as lg k") (auto simp: expired_def)

lemmas tick_loop_Cons = tick_loop_expired tick_loop_skip

declare tick_loop.simps(2) [simp del]

lemma tick_loop_arenas: "fst (tick_loop env as lg k) = map (settle env) as"
proof (induction as arbitrary: lg k)
  case Nil
  show ?case by simp
next
  case (Cons a as)
  show ?case by (cases "expired env a") (simp_all add: tick_loop_Cons settle_def Cons.IH)
qed

lemma tick_loop_didUpdate:
  "snd (snd (snd (tick_loop env as lg k))) = (\<exists>a\<in>set as. expired env a)"
proof (induction as arbitrary: lg k)
  case Nil
  show ?case by simp
next
  case (Cons a as)
  show ?case by (cases "expired env a") (simp_all add: tick_loop_Cons Cons.IH)
qed

lemma tick_loop_snapshots: "snapshots_of (fst (snd (snd (tick_loop env as lg k)))) = []"
proof (induction as arbitrary: lg k)
  case Nil
  show ?case by simp
next
  case (Cons a as)
  show ?case by (cases "expired env a") (simp_all add: tick_loop_Cons Cons.IH)
qed

lemma tick_loop_logs:
  "logs_of (fst (snd (snd (tick_loop env as lg k)))) =
     map2 (tick_log env) [k..<k + length (filter (expired env) as)] (filter (expired env) as)"
proof (induction as arbitrary: lg k)
  case Nil
  show ?case by simp
next
  case (Cons a as)
  show ?case
  proof (cases "expired env a")
    case True
    have "[k..<k + Suc (length (filter (expired env) as))] =
            k # [Suc k..<Suc k + length (filter (expired env) as)]"
      by (simp add: upt_conv_Cons del: upt_Suc)
    with True show ?thesis by (simp add: tick_loop_expired Cons.IH del: upt_Suc)
  next
    case False
    then show ?thesis by (simp add: tick_loop_skip Cons.IH)
  qed
qed

lemma tick_loop_idle:
  "\<forall>a\<in>set as. \<not> expired env a \<Longrightarrow> tick_loop env as lg k = (as, lg, [], False)"
  by (induction as) (simp_all add: tick_loop_skip)

lemma take_append_take: "take n (xs @ take n ys) = take n (xs @ ys)"
  by simp

lemma tick_loop_log:
  "length lg \<le> 15 \<Longrightarrow>
   fst (snd (tick_loop env as lg k)) =
     take 15 (rev (logs_of (fst (snd (snd (tick_loop env as lg k))))) @ lg)"
proof (induction as arbitrary: lg k)
  case Nil
  then show ?case by simp
next
  case (Cons a as)
  show ?case
  proof (cases "expired env a")
    case True
    let ?lg1 = "take 15 (tick_log env k a # lg)"
    let ?r = "tick_loop env as ?lg1 (Suc k)"
    have "length ?lg1 \<le> 15" by simp
    then have "fst (snd ?r) = take 15 (rev (logs_of (fst (snd (snd ?r)))) @ ?lg1)"
      by (rule Cons.IH)
    also have "\<dots> = take 15 (rev (logs_of (fst (snd (snd ?r)))) @ tick_log env k a # lg)"
      by (rule take_append_take)
    finally show ?thesis using True by (simp add: tick_loop_expired)
  next
    case False
    then show ?thesis using Cons.IH [OF Cons.prems, of k] by (simp add: tick_loop_skip)
  qed
qed

lemma tick_state:
  "fst (tick env s) =
     \<lparr>arenas = map (settle env) (arenas s),
      activityLog = fst (snd (tick_loop env (arenas s) (activityLog s) 0))\<rparr>"
  using tick_loop_arenas [of env "arenas s" "activityLog s" 0]
  by (cases "tick_loop env (arenas s) (activityLog s) 0") (simp add: tick_def)

lemma tick_events:
  "snd (tick env s) =
     fst (snd (snd (tick_loop env (arenas s) (activityLog s) 0)))
     @ (if \<exists>a\<in>set (arenas s). expired env a then [StateUpdate (map (settle env) (arenas s))]
        else [])"
  using tick_loop_arenas [of env "arenas s" "activityLog s" 0]
    tick_loop_didUpdate [of env "arenas s" "activityLog s" 0]
  by (cases "tick_loop env (arenas s) (activityLog s) 0") (simp add: tick_def)

lemma tick_arenas: "arenas (fst (tick env s)) = map (settle env) (arenas s)"
  by (simp add: tick_state)

lemma resolved_arena:
  "fst (resolve_expired a) =
     a\<lparr>status := Resolved,
       winnerRoastId := (case roasts a of [] \<Rightarrow> winnerRoastId a
                         | r # rs \<Rightarrow> Some (roast_id (reduce_winner r rs)))\<rparr>"
  by (cases "roasts a") (simp_all add: resolve_expired_def Let_def)

lemma settle_status:
  "status (settle env a) = (if expired env a then Resolved else status a)"
  by (simp add: settle_def resolved_arena)

lemma settle_not_expired: "now env' \<le> now env \<Longrightarrow> \<not> expired env' (settle env a)"
  by (auto simp: settle_def resolved_arena expired_def)

section \<open>What the handlers keep\<close>

lemma keeps_settle: "keeps (settle env)"
  by (simp add: keeps_def same_identity_def settle_def resolved_arena expired_def)

lemma keeps_ident: "keeps (\<lambda>a. a)"
  by (simp add: keeps_def same_identity_def)

lemma same_identity_trans:
  "same_identity a b \<Longrightarrow> same_identity b c \<Longrightarrow> same_identity a c"
  by (simp add: same_identity_def)

lemma keeps_identity: "keeps f \<Longrightarrow> same_identity a (f a)"
  unfolding keeps_def by blast

lemma keeps_resolved: "keeps f \<Longrightarrow> status a = Resolved \<Longrightarrow> status (f a) = Resolved"
  unfolding keeps_def by blast

lemma keeps_active:
  "keeps f \<Longrightarrow> status (f a) = Active \<Longrightarrow> status a = Active \<and> winnerRoastId (f a) = winnerRoastId a"
  unfolding keeps_def by blast

lemma keeps_comp:
  assumes f: "keeps f" and g: "keeps g"
  shows "keeps (g \<circ> f)"
  unfolding keeps_def
proof (intro allI conjI impI)
  fix a
  show "same_identity a ((g \<circ> f) a)"
    using keeps_identity [OF f, of a] keeps_identity [OF g, of "f a"]
    by (simp add: same_identity_trans)
  show "status ((g \<circ> f) a) = Resolved" if "status a = Resolved"
    using that keeps_resolved [OF f] keeps_resolved [OF g] by simp
  show "status a = Active" if "status ((g \<circ> f) a) = Active"
    using that keeps_active [OF f, of a] keeps_active [OF g, of "f a"] by simp
  show "winnerRoastId ((g \<circ> f) a) = winnerRoastId a" if "status ((g \<circ> f) a) = Active"
    using that keeps_active [OF f, of a] keeps_active [OF g, of "f a"] by simp
qed

lemma step_shape:
  "\<exists>pre f. arenas (fst (step env i s)) = pre @ map f (arenas s) \<and> keeps f
      \<and> (\<forall>a\<in>set pre. status a = Active \<and> winnerRoastId a = None)"
proof (cases i)
  case Tick
  have "arenas (fst (step env i s)) = [] @ map (settle env) (arenas s)"
    using Tick by (simp add: tick_arenas)
  then show ?thesis using keeps_settle by fastforce
next
  case (Join h)
  have "arenas (fst (step env i s)) = [] @ map (\<lambda>a. a) (arenas s)"
    using Join by (simp add: join_def logActivity_def Let_def)
  then show ?thesis using keeps_ident by fastforce
next
  case (CreateArena d)
  have "\<exists>a. arenas (fst (step env i s)) = [a] @ map (\<lambda>a. a) (arenas s)
           \<and> status a = Active \<and> winnerRoastId a = None"
    using CreateArena by (simp add: create_arena_def logActivity_def Let_def)
  then show ?thesis using keeps_ident by fastforce
next
  case (SubmitRoast arenaId roastData)
  let ?f = "\<lambda>arena. if arena_id arena \<noteq> arenaId then arena
                     else arena\<lparr>roasts := roasts arena @ [roastData]\<rparr>"
  have "arenas (fst (step env i s)) = [] @ map ?f (arenas s)"
    using SubmitRoast by (simp add: submit_roast_def logActivity_def Let_def)
  moreover have "keeps ?f" by (simp add: keeps_def same_identity_def)
  ultimately show ?thesis by fastforce
next
  case (StakeRoast arenaId roastId amount userHandle)
  let ?f = "\<lambda>arena. if arena_id arena \<noteq> arenaId then arena
              else arena\<lparr>roasts := map (\<lambda>roast. if roast_id roast \<noteq> roastId then roast
                       else roast\<lparr>backedStake := backedStake roast + amount\<rparr>)
                     (roasts arena)\<rparr>"
  have "arenas (fst (step env i s)) = [] @ map ?f (arenas s)"
    using StakeRoast by (simp add: stake_roast_def logActivity_def Let_def)
  moreover have "keeps ?f" by (simp add: keeps_def same_identity_def)
  ultimately show ?thesis by fastforce
qed

lemma run_Cons: "fst (run ((env, i) # rest) s) = fst (run rest (fst (step env i s)))"
  by (simp split: prod.splits)

lemma run_shape:
  "\<exists>pre f. arenas (fst (run inputs s)) = pre @ map f (arenas s) \<and> keeps f
      \<and> (\<forall>a\<in>set pre. status a = Active \<longrightarrow> winnerRoastId a = None)"
proof (induction inputs arbitrary: s)
  case Nil
  have "arenas (fst (run [] s)) = [] @ map (\<lambda>a. a) (arenas s)" by simp
  then show ?case using keeps_ident by fastforce
next
  case (Cons x inputs)
  obtain env i where x: "x = (env, i)" by (cases x)
  obtain pre1 f1 where 1: "arenas (fst (step env i s)) = pre1 @ map f1 (arenas s)" "keeps f1"
    "\<forall>a\<in>set pre1. status a = Active \<and> winnerRoastId a = None"
    using step_shape by blast
  obtain pre2 f2 where 2: "arenas (fst (run inputs (fst (step env i s))))
      = pre2 @ map f2 (arenas (fst (step env i s)))" "keeps f2"
    "\<forall>a\<in>set pre2. status a = Active \<longrightarrow> winnerRoastId a = None"
    using Cons.IH by blast
  have "arenas (fst (run (x # inputs) s)) = (pre2 @ map f2 pre1) @ map (f2 \<circ> f1) (arenas s)"
    unfolding x run_Cons using 1(1) 2(1) by simp
  moreover have "keeps (f2 \<circ> f1)" using 1(2) 2(2) by (rule keeps_comp)
  moreover have "\<forall>a\<in>set (pre2 @ map f2 pre1). status a = Active \<longrightarrow> winnerRoastId a = None"
    using 1(3) 2(3) keeps_active [OF 2(2)] by auto
  ultimately show ?case by blast
qed

lemma carried_shape:
  "arenas s' = pre @ map f (arenas s) \<Longrightarrow> n < length (arenas s) \<Longrightarrow>
   carried s s' n = f (arenas s ! n) \<and> n + (length (arenas s') - length (arenas s)) < length (arenas s')"
  by (simp add: carried_def nth_append)

lemma run_carried:
  assumes "n < length (arenas s)"
  shows "\<exists>f. keeps f \<and> carried s (fst (run inputs s)) n = f (arenas s ! n)
     \<and> n + (length (arenas (fst (run inputs s))) - length (arenas s))
         < length (arenas (fst (run inputs s)))"
proof -
  obtain pre f where *: "arenas (fst (run inputs s)) = pre @ map f (arenas s)" "keeps f"
    using run_shape by blast
  from carried_shape [OF *(1) assms] *(2) show ?thesis by blast
qed

lemma run_unset:
  assumes "\<forall>a\<in>set (arenas s). status a = Active \<longrightarrow> winnerRoastId a = None"
  shows "\<forall>a\<in>set (arenas (fst (run inputs s))). status a = Active \<longrightarrow> winnerRoastId a = None"
proof -
  obtain pre f where *: "arenas (fst (run inputs s)) = pre @ map f (arenas s)" "keeps f"
    "\<forall>a\<in>set pre. status a = Active \<longrightarrow> winnerRoastId a = None"
    using run_shape by blast
  show ?thesis using assms *(1,3) keeps_active [OF *(2)] by auto
qed

lemma tick_idle:
  "\<forall>a\<in>set (arenas s). \<not> expired env a \<Longrightarrow> tick env s = (s, [])"
  by (simp add: tick_def tick_loop_idle)

lemma tick_twice:
  assumes "now env' \<le> now env"
  shows "tick env' (fst (tick env s)) = (fst (tick env s), [])"
proof (rule tick_idle)
  show "\<forall>a\<in>set (arenas (fst (tick env s))). \<not> expired env' a"
    using settle_not_expired [OF assms] by (auto simp: tick_arenas)
qed

section \<open>What each handler does to the store\<close>

lemmas fixtures = mock_r1_def mock_r2_def mock_arena_def tied_roasts_def
  mock_store_def env_at_def bait_def late_roast_def backer_def

lemma run_events:
  "snd (run ((env, i) # rest) s) = snd (step env i s) @ snd (run rest (fst (step env i s)))"
  by (simp split: prod.splits)

declare run.simps(2) [simp del]

lemma create_arena_arenas:
  "arenas (fst (create_arena env arenaData s)) =
     \<lparr>arena_id = randomId env, opId = d_opId arenaData, opName = d_opName arenaData,
       opHandle = d_opHandle arenaData, opAvatar = d_opAvatar arenaData,
       arena_text = d_text arenaData, stake = 5 / 100, endTime = now env + 5 * 60 * 1000,
       status = Active, winnerRoastId = None, roasts = []\<rparr> # arenas s"
  by (simp add: create_arena_def logActivity_def Let_def)

lemma join_arenas: "arenas (fst (join env userHandle s)) = arenas s"
  by (simp add: join_def logActivity_def Let_def)

lemma submit_roast_arenas:
  "arenas (fst (submit_roast env arenaId roastData s)) =
     map (\<lambda>arena. if arena_id arena \<noteq> arenaId then arena
                   else arena\<lparr>roasts := roasts arena @ [roastData]\<rparr>) (arenas s)"
  by (simp add: submit_roast_def logActivity_def Let_def)

lemma stake_roast_arenas:
  "arenas (fst (stake_roast env arenaId roastId amount userHandle s)) =
     map (\<lambda>arena. if arena_id arena \<noteq> arenaId then arena
            else arena\<lparr>roasts := map (\<lambda>roast. if roast_id roast \<noteq> roastId then roast
                     else roast\<lparr>backedStake := backedStake roast + amount\<rparr>)
                   (roasts arena)\<rparr>) (arenas s)"
  by (simp add: stake_roast_def logActivity_def Let_def)

lemma submit_roast_log:
  "activityLog (fst (submit_roast env arenaId roastData s)) =
     take 15 (submit_log env roastData # activityLog s)"
  by (simp add: submit_roast_def logActivity_def submit_log_def Let_def)

lemma stake_roast_log:
  "activityLog (fst (stake_roast env arenaId roastId amount userHandle s)) =
     take 15 (stake_log env amount userHandle # activityLog s)"
  by (simp add: stake_roast_def logActivity_def stake_log_def Let_def)

lemma submit_roast_events:
  "snd (submit_roast env arenaId roastData s) =
     [ActivityUpdate (submit_log env roastData),
      StateUpdate (arenas (fst (submit_roast env arenaId roastData s)))]"
  by (simp add: submit_roast_def logActivity_def submit_log_def Let_def)

lemma stake_roast_events:
  "snd (stake_roast env arenaId roastId amount userHandle s) =
     [ActivityUpdate (stake_log env amount userHandle),
      StateUpdate (arenas (fst (stake_roast env arenaId roastId amount userHandle s)))]"
  by (simp add: stake_roast_def logActivity_def stake_log_def Let_def)

lemmas handler_arenas = tick_arenas join_arenas create_arena_arenas submit_roast_arenas
  stake_roast_arenas

lemma resolved_store_arenas:
  "arenas resolved_store =
     [(mock_arena 0 [mock_r1, mock_r2])\<lparr>status := Resolved, winnerRoastId := Some ''r1''\<rparr>]"
  by (simp add: resolved_store_def fixtures tick_arenas settle_def expired_def
      resolve_expired_def reduce_winner_def pick_def)

lemma later_arenas:
  "arenas (fst (run later_inputs resolved_store)) =
     [\<lparr>arena_id = ''k3x9qz'', opId = ''dev_7'', opName = ''Duvesh'', opHandle = ''@duvesh_dev'',
        opAvatar = ''D'', arena_text = ''Tabs are better than spaces.'', stake = 5 / 100,
        endTime = 700000, status = Resolved, winnerRoastId = None, roasts = []\<rparr>,
      (mock_arena 0 [mock_r1, mock_r2\<lparr>backedStake := 9 / 100\<rparr>])
        \<lparr>status := Resolved, winnerRoastId := Some ''r1''\<rparr>]"
  by (simp add: later_inputs_def run_Cons handler_arenas resolved_store_arenas fixtures
      settle_def expired_def resolve_expired_def)

lemma settle_fixed: "settle env a = a \<longleftrightarrow> \<not> expired env a"
proof
  assume "settle env a = a"
  then have "status (settle env a) = status a" by simp
  then show "\<not> expired env a" by (auto simp: settle_status expired_def)
next
  assume "\<not> expired env a"
  then show "settle env a = a" by (simp add: settle_def)
qed

lemma map_fixed: "map f xs = xs \<longleftrightarrow> (\<forall>x\<in>set xs. f x = x)"
  by (induction xs) auto

lemma later_carried:
  "carried resolved_store (fst (run later_inputs resolved_store)) 0 =
     (mock_arena 0 [mock_r1, mock_r2\<lparr>backedStake := 9 / 100\<rparr>])
        \<lparr>status := Resolved, winnerRoastId := Some ''r1''\<rparr>"
  by (simp add: carried_def later_arenas resolved_store_arenas)

section \<open>The activity log\<close>

lemma tick_logs:
  "logs_of (snd (tick env s)) =
     map2 (tick_log env) [0..<length (filter (expired env) (arenas s))]
       (filter (expired env) (arenas s))"
  using tick_loop_logs [of env "arenas s" "activityLog s" 0]
  by (simp add: tick_events logs_of_append)

lemma tick_log_state:
  "length (activityLog s) \<le> 15 \<Longrightarrow>
   activityLog (fst (tick env s)) = take 15 (rev (logs_of (snd (tick env s))) @ activityLog s)"
  using tick_loop_log [of "activityLog s" env "arenas s" 0]
  by (simp add: tick_state tick_events logs_of_append)

lemma step_log:
  assumes "length (activityLog s) \<le> 15"
  shows "activityLog (fst (step env i s)) =
           take 15 (rev (logs_of (snd (step env i s))) @ activityLog s)"
proof (cases i)
  case Tick
  then show ?thesis using assms by (simp add: tick_log_state)
next
  case (Join h)
  then show ?thesis by (simp add: join_def logActivity_def Let_def)
next
  case (CreateArena d)
  then show ?thesis by (simp add: create_arena_def logActivity_def Let_def)
next
  case (SubmitRoast arenaId roastData)
  then show ?thesis by (simp add: submit_roast_log submit_roast_events)
next
  case (StakeRoast arenaId roastId amount userHandle)
  then show ?thesis by (simp add: stake_roast_log stake_roast_events)
qed

lemma run_log:
  "length (activityLog s) \<le> 15 \<Longrightarrow>
   activityLog (fst (run inputs s)) =
     take 15 (rev (logs_of (snd (run inputs s))) @ activityLog s)"
proof (induction inputs arbitrary: s)
  case Nil
  then show ?case by simp
next
  case (Cons x inputs)
  obtain env i where x: "x = (env, i)" by (cases x)
  let ?s1 = "fst (step env i s)"
  let ?l1 = "logs_of (snd (step env i s))"
  let ?l2 = "logs_of (snd (run inputs ?s1))"
  have 1: "activityLog ?s1 = take 15 (rev ?l1 @ activityLog s)"
    using Cons.prems by (rule step_log)
  then have "length (activityLog ?s1) \<le> 15" by simp
  then have "activityLog (fst (run inputs ?s1)) = take 15 (rev ?l2 @ activityLog ?s1)"
    by (rule Cons.IH)
  also have "\<dots> = take 15 (rev ?l2 @ rev ?l1 @ activityLog s)"
    unfolding 1 by (rule take_append_take)
  finally show ?case by (simp add: x run_Cons run_events logs_of_append)
qed

lemma run_from_init_unset:
  "\<forall>a\<in>set (arenas (fst (run inputs init))). status a = Active \<longrightarrow> winnerRoastId a = None"
  by (rule run_unset) (simp add: init_def)

lemma fresh_store_eq:
  "fresh_store =
     \<lparr>arenas = [\<lparr>arena_id = ''k3x9qz'', opId = ''dev_7'', opName = ''Duvesh'',
        opHandle = ''@duvesh_dev'', opAvatar = ''D'', arena_text = ''Tabs are better than spaces.'',
        stake = 5 / 100, endTime = 300000, status = Active, winnerRoastId = None, roasts = []\<rparr>],
      activityLog = [\<lparr>log_id = ''0.42'', message = ''@duvesh_dev dropped a new Ragebait!'',
        timestamp = 0\<rparr>]\<rparr>"
  by (simp add: fresh_store_def run_Cons create_arena_def logActivity_def Let_def init_def
      env_at_def bait_def)

lemma tick_fresh_store:
  "tick (env_at 300000) fresh_store =
     (\<lparr>arenas = [\<lparr>arena_id = ''k3x9qz'', opId = ''dev_7'', opName = ''Duvesh'',
         opHandle = ''@duvesh_dev'', opAvatar = ''D'', arena_text = ''Tabs are better than spaces.'',
         stake = 5 / 100, endTime = 300000, status = Resolved, winnerRoastId = None,
         roasts = []\<rparr>],
       activityLog = [\<lparr>log_id = ''0.42'',
           message = ''Arena by @duvesh_dev closed with no roasts.'', timestamp = 300000\<rparr>,
         \<lparr>log_id = ''0.42'', message = ''@duvesh_dev dropped a new Ragebait!'',
           timestamp = 0\<rparr>]\<rparr>,
      [ActivityUpdate \<lparr>log_id = ''0.42'',
           message = ''Arena by @duvesh_dev closed with no roasts.'', timestamp = 300000\<rparr>,
       StateUpdate [\<lparr>arena_id = ''k3x9qz'', opId = ''dev_7'', opName = ''Duvesh'',
         opHandle = ''@duvesh_dev'', opAvatar = ''D'', arena_text = ''Tabs are better than spaces.'',
         stake = 5 / 100, endTime = 300000, status = Resolved, winnerRoastId = None,
         roasts = []\<rparr>]])"
  by (simp add: fresh_store_eq tick_def tick_loop.simps(2) resolve_expired_def logActivity_def
      Let_def env_at_def)

lemma join_step:
  "fst (join env h s) = s\<lparr>activityLog := take 15 (join_entry env h # activityLog s)\<rparr>"
  "snd (join env h s) = [ActivityUpdate (join_entry env h)]"
  by (simp_all add: join_def logActivity_def Let_def join_entry_def)

lemma run_joins:
  "logs_of (snd (run (replicate n (env, Join h)) s)) = replicate n (join_entry env h)"
  by (induction n arbitrary: s) (simp_all add: run_events join_step)

section \<open>Payouts\<close>

text \<open>
  When the winning roast records a positive \<open>myBackedAmount\<close>, the payout that both
  clients compute holds the share of the specification. The equation is one of exact
  arithmetic: the code rounds every operation to a double.
\<close>

lemma payout_of_backer:
  assumes "0 < backedStake winner" and "0 < myBackedAmount winner"
  shows "payout_of u arena winner =
       share_formula (myBackedAmount winner) (backedStake winner) (losingBackingPool arena winner)
       + (if roasterId winner = user_id u
          then 7 / 10 * stake arena + 7 / 10 * (of_nat (length (roasts arena)) - 1) * (1 / 100)
          else 0)
       + (if opId arena = user_id u
          then 5 / 100 * (losingBackingPool arena winner + backedStake winner) else 0)"
  using assms by (simp add: payout_of_def share_formula_def Let_def)

section \<open>The networked session\<close>

lemma resolve_expired_roasts: "roasts (fst (resolve_expired a)) = roasts a"
  by (simp add: resolved_arena)

lemma step_untracked:
  assumes "untracked (arenas s)" and "from_client i"
  shows "untracked (arenas (fst (step env i s)))"
proof (cases i)
  case Tick
  then show ?thesis using assms(1)
    by (auto simp: untracked_def tick_arenas settle_def resolve_expired_roasts)
next
  case (Join h)
  then show ?thesis using assms(1) by (simp add: join_arenas)
next
  case (CreateArena d)
  then show ?thesis using assms(1) by (simp add: untracked_def create_arena_arenas)
next
  case (SubmitRoast arenaId roastData)
  then show ?thesis using assms by (auto simp: untracked_def submit_roast_arenas)
next
  case (StakeRoast arenaId roastId amount userHandle)
  then show ?thesis using assms(1) by (auto simp: untracked_def stake_roast_arenas)
qed

lemma run_untracked:
  "untracked (arenas s) \<Longrightarrow> \<forall>x\<in>set inputs. from_client (snd x) \<Longrightarrow>
   untracked (arenas (fst (run inputs s)))"
proof (induction inputs arbitrary: s)
  case Nil
  then show ?case by simp
next
  case (Cons x inputs)
  obtain env i where x: "x = (env, i)" by (cases x)
  have "untracked (arenas (fst (step env i s)))"
    using Cons.prems x by (intro step_untracked) simp_all
  then have "untracked (arenas (fst (run inputs (fst (step env i s)))))"
    using Cons.prems(2) by (intro Cons.IH) simp_all
  then show ?case by (simp add: x run_Cons)
qed

lemma payout_of_nothing:
  assumes "myBackedAmount winner = 0" and "roasterId winner \<noteq> user_id u"
    and "opId arena \<noteq> user_id u"
  shows "payout_of u arena winner = 0"
  using assms by (simp add: payout_of_def Let_def)

lemma processPayout_unpaid:
  assumes "\<forall>r\<in>set (roasts arena). myBackedAmount r = 0 \<and> roasterId r \<noteq> user_id u"
    and "opId arena \<noteq> user_id u"
  shows "processPayout (Some u) arena = Some u"
proof -
  have "credit u (payout_of u arena winner) = u"
    if "find (\<lambda>r. roast_id r = wid) (roasts arena) = Some winner" for wid winner
  proof -
    have "winner \<in> set (roasts arena)" using that by (auto simp: find_Some_iff)
    then have "payout_of u arena winner = 0"
      using assms by (intro payout_of_nothing) auto
    then show ?thesis by (simp add: credit_def)
  qed
  then show ?thesis
    by (simp add: processPayout_def split: option.splits)
qed

lemma payouts_unpaid:
  assumes "\<forall>a\<in>set as. processPayout (Some u) a = Some u"
  shows "foldl (\<lambda>cu arena.
           (case find (\<lambda>a. arena_id a = arena_id arena) prev of
              None \<Rightarrow> cu
            | Some oldArena \<Rightarrow>
                (if status oldArena = Active \<and> status arena = Resolved
                 then processPayout cu arena else cu)))
         (Some u) as = Some u"
  using assms by (induction as) (simp_all split: option.splits)

lemma run_append: "fst (run (xs @ ys) s) = fst (run ys (fst (run xs s)))"
proof (induction xs arbitrary: s)
  case Nil
  show ?case by simp
next
  case (Cons x xs)
  obtain env i where "x = (env, i)" by (cases x)
  then show ?case using Cons.IH by (simp add: run_Cons)
qed

lemmas net_fixtures = roast_a_def roast_b_def bait_arena_def bait_def env_at_def backer_def

lemma first_inputs_arenas:
  "arenas (fst (run first_inputs init)) = [bait_arena\<lparr>roasts := [roast_a, roast_b]\<rparr>]"
  by (simp add: first_inputs_def run_Cons handler_arenas init_def net_fixtures)

lemma staked_arenas:
  "arenas (fst (run (staked_inputs) init)) =
     [bait_arena\<lparr>roasts := [roast_a\<lparr>backedStake := 5 / 100\<rparr>, roast_b]\<rparr>]"
  by (simp add: staked_inputs_def run_append first_inputs_arenas run_Cons handler_arenas
      net_fixtures)

lemma settled_arenas:
  "arenas (fst (run settled_inputs init)) =
     [bait_arena\<lparr>roasts := [roast_a\<lparr>backedStake := 5 / 100\<rparr>, roast_b],
        status := Resolved, winnerRoastId := Some ''ra''\<rparr>]"
  by (simp add: settled_inputs_def run_append run_Cons tick_arenas staked_arenas settle_def
      expired_def resolve_expired_def reduce_winner_def pick_def net_fixtures)

lemma outbid_arenas:
  "arenas (fst (run outbid_inputs init)) =
     [bait_arena\<lparr>roasts := [roast_a\<lparr>backedStake := 5 / 100\<rparr>, roast_b\<lparr>backedStake := 10 / 100\<rparr>],
        status := Resolved, winnerRoastId := Some ''ra''\<rparr>]"
  by (simp add: outbid_inputs_def run_append settled_arenas run_Cons handler_arenas net_fixtures)

lemma late_entry_arenas:
  "arenas (fst (run late_entry_inputs init)) =
     [bait_arena\<lparr>roasts := [roast_a], status := Resolved\<rparr>]"
  by (simp add: late_entry_inputs_def run_Cons handler_arenas init_def settle_def expired_def
      resolve_expired_def net_fixtures)

lemma joined_client_eq:
  "joined_client = \<lparr>currentUser = Some backer,
     clientArenas = [bait_arena\<lparr>roasts := [roast_a, roast_b]\<rparr>],
     prevArenas = [bait_arena\<lparr>roasts := [roast_a, roast_b]\<rparr>]\<rparr>"
  by (simp add: joined_client_def on_state_update_def first_inputs_arenas)

lemma stake_click:
  "handleStakeOnRoast ''k3x9qz'' ''ra'' joined_client =
     (\<lparr>currentUser = Some (backer\<lparr>balance := balance backer - 5 / 100\<rparr>),
       clientArenas = [bait_arena\<lparr>roasts := [roast_a\<lparr>myBackedAmount := 5 / 100\<rparr>, roast_b]\<rparr>],
       prevArenas = [bait_arena\<lparr>roasts := [roast_a, roast_b]\<rparr>]\<rparr>,
      Some (StakeRoast ''k3x9qz'' ''ra'' (5 / 100) ''@riya''))"
  by (simp add: handleStakeOnRoast_def joined_client_eq Let_def net_fixtures)

lemma staked_client_eq:
  "staked_client = \<lparr>currentUser = Some (backer\<lparr>balance := balance backer - 5 / 100\<rparr>),
     clientArenas = [bait_arena\<lparr>roasts := [roast_a\<lparr>backedStake := 5 / 100\<rparr>, roast_b]\<rparr>],
     prevArenas = [bait_arena\<lparr>roasts := [roast_a\<lparr>backedStake := 5 / 100\<rparr>, roast_b]\<rparr>]\<rparr>"
  by (simp add: staked_client_def stake_click on_state_update_def staked_arenas net_fixtures)

section \<open>Winner selection\<close>

lemma reduce_winner_earliest:
  "\<exists>i. earliest_maximal (r # rs) i \<and> reduce_winner r rs = (r # rs) ! i"
  using reduce_winner_index [of r rs] unfolding earliest_maximal_def by blast

lemma find_distinct_id:
  "distinct (map roast_id rs) \<Longrightarrow> i < length rs \<Longrightarrow>
   find (\<lambda>r. roast_id r = roast_id (rs ! i)) rs = Some (rs ! i)"
proof (induction rs arbitrary: i)
  case Nil
  then show ?case by simp
next
  case (Cons x xs)
  show ?case
  proof (cases i)
    case 0
    then show ?thesis by simp
  next
    case (Suc m)
    with Cons.prems have m: "m < length xs" and d: "distinct (map roast_id xs)"
      and "roast_id x \<notin> roast_id ` set xs" by simp_all
    then have "roast_id x \<noteq> roast_id (xs ! m)" by (metis imageI nth_mem)
    with Cons.IH [OF d m] Suc show ?thesis by simp
  qed
qed

lemma resolveArena_arena: "fst (resolveArena cu a) = fst (resolve_expired a)"
  by (cases "roasts a") (simp_all add: resolveArena_def resolve_expired_def Let_def)

text \<open>
  Claim C1, as the code has it. At the moment the tick resolves an expired active arena
  that has at least one roast, the arena becomes \<open>Resolved\<close>, keeps its roasts, and its
  \<open>winnerRoastId\<close> is the id of the first roast, in insertion order, whose \<open>backedStake\<close>
  is maximal: no roast is backed higher and every earlier roast is backed strictly lower,
  so among tied roasts the one submitted first wins. The single-process client's
  \<^verbatim>\<open>resolveArena\<close> returns the same arena. Where the roast ids are distinct, looking the
  id up (as \<^verbatim>\<open>processPayout\<close> does) finds exactly that roast.
\<close>

theorem winner_is_earliest_maximal:
  assumes "n < length (arenas s)" and "expired env (arenas s ! n)"
    and "roasts (arenas s ! n) \<noteq> []"
  shows "status (arenas (fst (tick env s)) ! n) = Resolved
       \<and> roasts (arenas (fst (tick env s)) ! n) = roasts (arenas s ! n)
       \<and> fst (resolveArena cu (arenas s ! n)) = arenas (fst (tick env s)) ! n
       \<and> (\<exists>i. earliest_maximal (roasts (arenas s ! n)) i
              \<and> winnerRoastId (arenas (fst (tick env s)) ! n)
                  = Some (roast_id (roasts (arenas s ! n) ! i))
              \<and> (distinct (map roast_id (roasts (arenas s ! n))) \<longrightarrow>
                   find (\<lambda>r. Some (roast_id r) = winnerRoastId (arenas (fst (tick env s)) ! n))
                     (roasts (arenas (fst (tick env s)) ! n))
                   = Some (roasts (arenas s ! n) ! i)))"
proof -
  let ?a = "arenas s ! n"
  obtain r rs where rs: "roasts ?a = r # rs" using assms(3) by (cases "roasts ?a") auto
  have at: "arenas (fst (tick env s)) ! n = fst (resolve_expired ?a)"
    using assms(1,2) by (simp add: tick_arenas settle_def)
  obtain i where i: "earliest_maximal (r # rs) i" "reduce_winner r rs = (r # rs) ! i"
    using reduce_winner_earliest by blast
  have w: "winnerRoastId (fst (resolve_expired ?a)) = Some (roast_id ((r # rs) ! i))"
    using rs i(2) by (simp add: resolved_arena)
  have f: "distinct (map roast_id (r # rs)) \<Longrightarrow>
           find (\<lambda>x. roast_id x = roast_id ((r # rs) ! i)) (r # rs) = Some ((r # rs) ! i)"
    using i(1) by (intro find_distinct_id) (simp_all add: earliest_maximal_def)
  have "status (fst (resolve_expired ?a)) = Resolved"
    and "roasts (fst (resolve_expired ?a)) = roasts ?a"
    by (simp_all add: resolved_arena)
  with at rs i w f show ?thesis
    by (auto simp: resolveArena_arena intro!: exI [of _ i])
qed


theorem winner_is_earliest_maximal_witness:
  "expired (env_at 300000) (arenas (mock_store tied_roasts) ! 0)
   \<and> roasts (arenas (mock_store tied_roasts) ! 0) \<noteq> []
   \<and> backedStake (tied_roasts ! 0) = backedStake (tied_roasts ! 1)
   \<and> status (arenas (fst (tick (env_at 300000) (mock_store tied_roasts))) ! 0) = Resolved
   \<and> winnerRoastId (arenas (fst (tick (env_at 300000) (mock_store tied_roasts))) ! 0)
       = Some ''r1''"
  using winner_is_earliest_maximal [of 0 "mock_store tied_roasts" "env_at 300000"]
  by (simp add: fixtures expired_def tick_arenas settle_def resolve_expired_def
      reduce_winner_def pick_def)

text \<open>
  The claim as the specification states it, for every resolved arena, fails: the server
  applies stakes and roasts to a \<open>Resolved\<close> arena as well. From a fresh server, two
  stakes that arrive after the resolution leave the arena \<open>Resolved\<close> with winner \<open>ra\<close>
  backed 0.05 while \<open>rb\<close> is backed 0.10; and an arena resolved empty, to which a roast is
  submitted later, is \<open>Resolved\<close> with one roast and no \<open>winnerRoastId\<close>.
\<close>

theorem resolved_winner_not_maximal_counterexample:
  "status (arenas (fst (run outbid_inputs init)) ! 0) = Resolved
   \<and> winnerRoastId (arenas (fst (run outbid_inputs init)) ! 0) = Some ''ra''
   \<and> map roast_id (roasts (arenas (fst (run outbid_inputs init)) ! 0)) = [''ra'', ''rb'']
   \<and> map backedStake (roasts (arenas (fst (run outbid_inputs init)) ! 0)) = [5 / 100, 10 / 100]
   \<and> status (arenas (fst (run late_entry_inputs init)) ! 0) = Resolved
   \<and> roasts (arenas (fst (run late_entry_inputs init)) ! 0) = [roast_a]
   \<and> winnerRoastId (arenas (fst (run late_entry_inputs init)) ! 0) = None"
  by (simp add: outbid_arenas late_entry_arenas net_fixtures)

section \<open>Status, deadline and frame\<close>

text \<open>
  Claim C4. Along every sequence of ticks and socket messages an arena that is
  \<open>Resolved\<close> stays \<open>Resolved\<close> (it is found again at its carried position, with the
  fields of its identity unchanged). A tick returns a \<open>Resolved\<close> arena as it is, and a
  tick that follows another one with a clock that has not advanced changes nothing and
  emits nothing: no arena is resolved a second time.
\<close>

theorem status_never_reverts:
  assumes "n < length (arenas s)" and "status (arenas s ! n) = Resolved"
  shows "n + (length (arenas (fst (run inputs s))) - length (arenas s))
           < length (arenas (fst (run inputs s)))
       \<and> status (carried s (fst (run inputs s)) n) = Resolved
       \<and> same_identity (arenas s ! n) (carried s (fst (run inputs s)) n)
       \<and> arenas (fst (tick env s)) ! n = arenas s ! n
       \<and> (now env' \<le> now env \<longrightarrow> tick env' (fst (tick env s)) = (fst (tick env s), []))"
proof -
  obtain f where f: "keeps f" "carried s (fst (run inputs s)) n = f (arenas s ! n)"
    "n + (length (arenas (fst (run inputs s))) - length (arenas s))
       < length (arenas (fst (run inputs s)))"
    using run_carried [OF assms(1)] by blast
  have "status (f (arenas s ! n)) = Resolved" using f(1) assms(2) by (rule keeps_resolved)
  moreover have "same_identity (arenas s ! n) (f (arenas s ! n))" using f(1) by (rule keeps_identity)
  moreover have "arenas (fst (tick env s)) ! n = arenas s ! n"
    using assms by (simp add: tick_arenas settle_def expired_def)
  ultimately show ?thesis using f(2,3) tick_twice by simp
qed

theorem status_never_reverts_witness:
  "0 < length (arenas resolved_store)
   \<and> status (arenas resolved_store ! 0) = Resolved
   \<and> length (arenas (fst (run later_inputs resolved_store))) = 2
   \<and> status (carried resolved_store (fst (run later_inputs resolved_store)) 0) = Resolved
   \<and> arena_id (carried resolved_store (fst (run later_inputs resolved_store)) 0) = ''a1''
   \<and> arenas (fst (tick (env_at 700000) resolved_store)) ! 0 = arenas resolved_store ! 0
   \<and> tick (env_at 700000) (fst (tick (env_at 700000) resolved_store))
       = (fst (tick (env_at 700000) resolved_store), [])"
  using status_never_reverts [of 0 resolved_store later_inputs "env_at 700000" "env_at 700000"]
  by (simp add: later_arenas later_carried resolved_store_arenas mock_arena_def)

text \<open>
  Claim C8. For every payload, clock and store, \<^verbatim>\<open>create-arena\<close> puts in front of the
  collection an arena whose \<open>endTime\<close> is the creation time plus 5 minutes (in
  milliseconds), whose status is \<open>Active\<close> and whose roast list is empty, and leaves the
  arenas already there as they are. Along every later sequence of ticks and socket
  messages the \<open>endTime\<close> of an arena does not change.
\<close>

theorem create_arena_deadline:
  "endTime (hd (arenas (fst (create_arena env arenaData s)))) = now env + 5 * 60 * 1000
   \<and> status (hd (arenas (fst (create_arena env arenaData s)))) = Active
   \<and> roasts (hd (arenas (fst (create_arena env arenaData s)))) = []
   \<and> tl (arenas (fst (create_arena env arenaData s))) = arenas s
   \<and> (\<forall>inputs. endTime (carried (fst (create_arena env arenaData s))
                          (fst (run inputs (fst (create_arena env arenaData s)))) 0)
                  = now env + 5 * 60 * 1000)
   \<and> (\<forall>n<length (arenas s). \<forall>inputs.
        endTime (carried s (fst (run inputs s)) n) = endTime (arenas s ! n))"
proof -
  have "endTime (carried s (fst (run inputs s)) n) = endTime (arenas s ! n)"
    if n: "n < length (arenas s)" for n s inputs
  proof -
    obtain f where f: "keeps f" "carried s (fst (run inputs s)) n = f (arenas s ! n)"
      using run_carried [OF n] by blast
    show ?thesis using keeps_identity [OF f(1), of "arenas s ! n"] f(2)
      by (simp add: same_identity_def)
  qed
  note later = this
  have new: "arenas (fst (create_arena env arenaData s)) =
      \<lparr>arena_id = randomId env, opId = d_opId arenaData, opName = d_opName arenaData,
        opHandle = d_opHandle arenaData, opAvatar = d_opAvatar arenaData,
        arena_text = d_text arenaData, stake = 5 / 100, endTime = now env + 5 * 60 * 1000,
        status = Active, winnerRoastId = None, roasts = []\<rparr> # arenas s"
    by (simp add: create_arena_def logActivity_def Let_def)
  have "endTime (carried s' (fst (run inputs s')) 0) = now env + 5 * 60 * 1000"
    if "s' = fst (create_arena env arenaData s)" for s' inputs
    using later [of 0 s' inputs] that new by simp
  with later [of _ s] new show ?thesis by simp
qed

theorem create_arena_deadline_witness:
  "endTime (hd (arenas (fst (create_arena (env_at 0) bait resolved_store)))) = 300000
   \<and> status (hd (arenas (fst (create_arena (env_at 0) bait resolved_store)))) = Active
   \<and> roasts (hd (arenas (fst (create_arena (env_at 0) bait resolved_store)))) = []
   \<and> 0 < length (arenas resolved_store)
   \<and> endTime (arenas resolved_store ! 0) = 300000
   \<and> endTime (carried resolved_store (fst (run later_inputs resolved_store)) 0) = 300000"
  using create_arena_deadline [of "env_at 0" bait resolved_store]
  by (simp add: resolved_store_arenas mock_arena_def env_at_def)

text \<open>
  Claim C10. A tick keeps the length and the order of the collection. An arena that is
  not both \<open>Active\<close> and past its \<open>endTime\<close> is returned as it is. An arena that is
  resolved differs from what it was in \<open>status\<close> and \<open>winnerRoastId\<close> only (id, originator
  fields, text, stake, \<open>endTime\<close> and the roast list are the same), and in \<open>status\<close> only
  when it has no roasts. \<^verbatim>\<open>resolveArena\<close> of the single-process client returns the same
  arena.
\<close>

theorem resolution_frame:
  "length (arenas (fst (tick env s))) = length (arenas s)
   \<and> (\<forall>n<length (arenas s).
        (expired env (arenas s ! n) \<longrightarrow>
           arenas (fst (tick env s)) ! n
             = (arenas s ! n)\<lparr>status := Resolved,
                  winnerRoastId := winnerRoastId (arenas (fst (tick env s)) ! n)\<rparr>
           \<and> fst (resolveArena cu (arenas s ! n)) = arenas (fst (tick env s)) ! n
           \<and> (roasts (arenas s ! n) = [] \<longrightarrow>
                arenas (fst (tick env s)) ! n = (arenas s ! n)\<lparr>status := Resolved\<rparr>))
        \<and> (\<not> expired env (arenas s ! n) \<longrightarrow> arenas (fst (tick env s)) ! n = arenas s ! n))"
  by (simp add: tick_arenas settle_def resolved_arena resolveArena_arena)

theorem resolution_frame_witness:
  "0 < length (arenas (mock_store [mock_r1, mock_r2]))
   \<and> expired (env_at 300000) (arenas (mock_store [mock_r1, mock_r2]) ! 0)
   \<and> \<not> expired (env_at 299999) (arenas (mock_store [mock_r1, mock_r2]) ! 0)
   \<and> arenas (fst (tick (env_at 300000) (mock_store [mock_r1, mock_r2]))) ! 0
       = (mock_arena 0 [mock_r1, mock_r2])\<lparr>status := Resolved, winnerRoastId := Some ''r1''\<rparr>
   \<and> arenas (fst (tick (env_at 299999) (mock_store [mock_r1, mock_r2]))) ! 0
       = mock_arena 0 [mock_r1, mock_r2]
   \<and> arenas (fst (tick (env_at 300000) (mock_store []))) ! 0
       = (mock_arena 0 [])\<lparr>status := Resolved\<rparr>"
  using resolution_frame [of "env_at 300000" "mock_store [mock_r1, mock_r2]"]
    resolution_frame [of "env_at 299999" "mock_store [mock_r1, mock_r2]"]
    resolution_frame [of "env_at 300000" "mock_store []"]
  by (simp add: fixtures expired_def tick_arenas settle_def resolve_expired_def
      reduce_winner_def pick_def)

text \<open>
  Claim C7. A tick resolves every arena that is \<open>Active\<close> and past its \<open>endTime\<close>, so
  that none is left afterwards. The collection changes exactly when there was such an
  arena; in that case the tick emits the new collection once, as a whole, and otherwise
  it emits no collection.
\<close>

theorem tick_resolves_and_broadcasts_once:
  "(\<forall>n<length (arenas s). expired env (arenas s ! n) \<longrightarrow>
       status (arenas (fst (tick env s)) ! n) = Resolved)
   \<and> (\<forall>a\<in>set (arenas (fst (tick env s))). \<not> expired env a)
   \<and> (arenas (fst (tick env s)) \<noteq> arenas s \<longleftrightarrow> (\<exists>a\<in>set (arenas s). expired env a))
   \<and> snapshots_of (snd (tick env s)) =
       (if arenas (fst (tick env s)) \<noteq> arenas s then [arenas (fst (tick env s))] else [])"
proof -
  have 1: "\<forall>n<length (arenas s). expired env (arenas s ! n) \<longrightarrow>
       status (arenas (fst (tick env s)) ! n) = Resolved"
    by (simp add: tick_arenas settle_status)
  have 2: "\<forall>a\<in>set (arenas (fst (tick env s))). \<not> expired env a"
    using settle_not_expired [of env env] by (auto simp: tick_arenas)
  have 3: "arenas (fst (tick env s)) \<noteq> arenas s \<longleftrightarrow> (\<exists>a\<in>set (arenas s). expired env a)"
    by (simp add: tick_arenas map_fixed settle_fixed)
  have 4: "snapshots_of (snd (tick env s)) =
       (if \<exists>a\<in>set (arenas s). expired env a then [arenas (fst (tick env s))] else [])"
    by (simp add: tick_events tick_arenas snapshots_of_append tick_loop_snapshots)
  show ?thesis using 1 2 3 4 by simp
qed

theorem tick_resolves_and_broadcasts_once_witness:
  "expired (env_at 300000) (arenas (mock_store [mock_r1, mock_r2]) ! 0)
   \<and> status (arenas (fst (tick (env_at 300000) (mock_store [mock_r1, mock_r2]))) ! 0) = Resolved
   \<and> snapshots_of (snd (tick (env_at 300000) (mock_store [mock_r1, mock_r2])))
       = [arenas resolved_store]
   \<and> snapshots_of (snd (tick (env_at 299999) (mock_store [mock_r1, mock_r2]))) = []
   \<and> snapshots_of (snd (tick (env_at 700000) resolved_store)) = []"
  using tick_resolves_and_broadcasts_once [of "mock_store [mock_r1, mock_r2]" "env_at 300000"]
    tick_resolves_and_broadcasts_once [of "mock_store [mock_r1, mock_r2]" "env_at 299999"]
    tick_resolves_and_broadcasts_once [of resolved_store "env_at 700000"]
  by (simp add: resolved_store_def fixtures expired_def tick_arenas settle_def
      resolve_expired_def reduce_winner_def pick_def)

section \<open>Activity log and empty arenas\<close>

text \<open>
  Claim C9. \<^verbatim>\<open>logActivity\<close> puts the new entry in front and keeps the first 15. Hence,
  from a log of at most 15 entries (the empty log of a fresh server is one), after every
  sequence of ticks and socket messages the log is the first 15 entries of the list
  made of the entries logged on the way, newest first, followed by the old log: it has
  at most 15 entries, the entry logged last is at its front, and what is missing are
  entries at the back of that list, none if the list has at most 15.
\<close>

theorem activity_log_bounded_newest_first:
  assumes "length (activityLog s) \<le> 15"
  shows "fst (logActivity stamp msg lg)
           = take 15 (\<lparr>log_id = fst stamp, message = msg, timestamp = snd stamp\<rparr> # lg)
       \<and> activityLog (fst (run inputs s))
           = take 15 (rev (logs_of (snd (run inputs s))) @ activityLog s)
       \<and> length (activityLog (fst (run inputs s))) \<le> 15
       \<and> (logs_of (snd (run inputs s)) \<noteq> [] \<longrightarrow>
            hd (activityLog (fst (run inputs s))) = last (logs_of (snd (run inputs s))))
       \<and> rev (logs_of (snd (run inputs s))) @ activityLog s
           = activityLog (fst (run inputs s))
             @ drop 15 (rev (logs_of (snd (run inputs s))) @ activityLog s)"
proof -
  define new where "new = logs_of (snd (run inputs s))"
  define all where "all = rev new @ activityLog s"
  have eq: "activityLog (fst (run inputs s)) = take 15 all"
    unfolding all_def new_def using assms by (rule run_log)
  have len: "length (take 15 all) \<le> 15" by simp
  have split: "all = take 15 all @ drop 15 all" by simp
  have front: "hd (take 15 all) = last new" if "new \<noteq> []"
    using that unfolding all_def by (cases new rule: rev_cases) simp_all
  have one: "fst (logActivity stamp msg lg)
      = take 15 (\<lparr>log_id = fst stamp, message = msg, timestamp = snd stamp\<rparr> # lg)"
    by (simp add: logActivity_def Let_def)
  have "fst (logActivity stamp msg lg)
           = take 15 (\<lparr>log_id = fst stamp, message = msg, timestamp = snd stamp\<rparr> # lg)
       \<and> activityLog (fst (run inputs s)) = take 15 all
       \<and> length (activityLog (fst (run inputs s))) \<le> 15
       \<and> (new \<noteq> [] \<longrightarrow> hd (activityLog (fst (run inputs s))) = last new)
       \<and> all = activityLog (fst (run inputs s)) @ drop 15 all"
    unfolding eq using one len split front by blast
  then show ?thesis unfolding all_def new_def .
qed

theorem activity_log_bounded_newest_first_witness:
  "length (activityLog init) \<le> 15
   \<and> length (logs_of (snd (run joins init))) = 16
   \<and> length (activityLog (fst (run joins init))) = 15
   \<and> hd (activityLog (fst (run joins init))) = last (logs_of (snd (run joins init)))"
proof -
  have h: "length (activityLog init) \<le> 15" by (simp add: init_def)
  note th = activity_log_bounded_newest_first [OF h, of _ _ _ joins]
  have n: "logs_of (snd (run joins init)) = replicate 16 (join_entry (env_at 5) ''@riya'')"
    by (simp add: joins_def run_joins)
  have l: "activityLog (fst (run joins init)) = replicate 15 (join_entry (env_at 5) ''@riya'')"
    using run_log [OF h, of joins] unfolding n by (simp add: init_def)
  have "logs_of (snd (run joins init)) \<noteq> []" by (simp add: n)
  with th have "hd (activityLog (fst (run joins init))) = last (logs_of (snd (run joins init)))"
    by blast
  with h n l show ?thesis by simp
qed

text \<open>
  Claim C3. In a store that the server reaches from its empty start, let a tick find an
  arena \<open>Active\<close>, past its \<open>endTime\<close> and without roasts. The tick returns it with the
  status \<open>Resolved\<close> and nothing else changed; its \<open>winnerRoastId\<close> is absent. The tick
  logs exactly one activity entry for each arena it resolves, in the order of the
  collection, and the entry for this arena says that it closed with no roasts. No
  payout is made: \<^verbatim>\<open>processPayout\<close> leaves the logged-in user as it is, and so does
  \<^verbatim>\<open>resolveArena\<close> of the single-process client, which returns the same arena and the
  same message.
\<close>

theorem empty_arena_resolution:
  assumes "s = fst (run inputs init)" and "n < length (arenas s)"
    and "expired env (arenas s ! n)" and "roasts (arenas s ! n) = []"
  shows "arenas (fst (tick env s)) ! n = (arenas s ! n)\<lparr>status := Resolved\<rparr>
       \<and> winnerRoastId (arenas (fst (tick env s)) ! n) = None
       \<and> logs_of (snd (tick env s))
           = map2 (tick_log env) [0..<length (filter (expired env) (arenas s))]
               (filter (expired env) (arenas s))
       \<and> message (tick_log env k (arenas s ! n))
           = ''Arena by '' @ opHandle (arenas s ! n) @ '' closed with no roasts.''
       \<and> processPayout cu (arenas (fst (tick env s)) ! n) = cu
       \<and> resolveArena cu (arenas s ! n)
           = ((arenas s ! n)\<lparr>status := Resolved\<rparr>,
              ''Arena by '' @ opHandle (arenas s ! n) @ '' closed with no roasts.'', cu)"
proof -
  let ?a = "arenas s ! n"
  have at: "arenas (fst (tick env s)) ! n = ?a\<lparr>status := Resolved\<rparr>"
    using assms(2-4) by (simp add: tick_arenas settle_def resolved_arena)
  have "?a \<in> set (arenas s)" using assms(2) by simp
  then have "winnerRoastId ?a = None"
    using run_from_init_unset [of inputs] assms(1,3) by (auto simp: expired_def)
  then have none: "winnerRoastId (?a\<lparr>status := Resolved\<rparr>) = None" by simp
  have msg: "message (tick_log env k ?a) = ''Arena by '' @ opHandle ?a @ '' closed with no roasts.''"
    using assms(4) by (simp add: tick_log_def resolve_expired_def)
  have pay: "processPayout cu (?a\<lparr>status := Resolved\<rparr>) = cu"
    using assms(4) by (cases cu) (simp_all add: processPayout_def)
  have loc: "resolveArena cu ?a = (?a\<lparr>status := Resolved\<rparr>,
      ''Arena by '' @ opHandle ?a @ '' closed with no roasts.'', cu)"
    using assms(4) by (simp add: resolveArena_def)
  show ?thesis unfolding at using none msg pay loc tick_logs by simp
qed

theorem empty_arena_resolution_witness:
  "fresh_store = fst (run [(env_at 0, CreateArena bait)] init)
   \<and> expired (env_at 300000) (arenas fresh_store ! 0)
   \<and> roasts (arenas fresh_store ! 0) = []
   \<and> status (arenas (fst (tick (env_at 300000) fresh_store)) ! 0) = Resolved
   \<and> winnerRoastId (arenas (fst (tick (env_at 300000) fresh_store)) ! 0) = None
   \<and> logs_of (snd (tick (env_at 300000) fresh_store))
       = [\<lparr>log_id = ''0.42'', message = ''Arena by @duvesh_dev closed with no roasts.'',
           timestamp = 300000\<rparr>]
   \<and> processPayout (Some backer) (arenas (fst (tick (env_at 300000) fresh_store)) ! 0)
       = Some backer"
proof -
  have h1: "fresh_store = fst (run [(env_at 0, CreateArena bait)] init)"
    by (simp add: fresh_store_def)
  have h2: "0 < length (arenas fresh_store)" by (simp add: fresh_store_eq)
  have h3: "expired (env_at 300000) (arenas fresh_store ! 0)"
    by (simp add: fresh_store_eq expired_def env_at_def)
  have h4: "roasts (arenas fresh_store ! 0) = []" by (simp add: fresh_store_eq)
  note th = empty_arena_resolution [OF h1 h2 h3 h4, of 0 "Some backer"]
  have st: "status (arenas (fst (tick (env_at 300000) fresh_store)) ! 0) = Resolved"
    and lg: "logs_of (snd (tick (env_at 300000) fresh_store))
       = [\<lparr>log_id = ''0.42'', message = ''Arena by @duvesh_dev closed with no roasts.'',
           timestamp = 300000\<rparr>]"
    by (simp_all add: tick_fresh_store)
  from h1 h3 h4 st lg th show ?thesis by blast
qed

section \<open>The backer's share in the networked application\<close>

text \<open>
  Claim C6. The networked application does not pay a backer. Let the server run, from
  its empty start, any sequence of ticks and of messages as the client sends them, and
  let the snapshot of its arenas reach a client whose logged-in user is neither the
  originator of an arena nor the author of a roast. Then no roast of the snapshot
  records a backed amount (\<^verbatim>\<open>stake-roast\<close> writes \<^verbatim>\<open>backedStake\<close> only), so the test
  \<^verbatim>\<open>winner.myBackedAmount > 0\<close> of \<^verbatim>\<open>processPayout\<close> fails on every arena, and the
  handler of \<^verbatim>\<open>state-update\<close> leaves the user, balance included, as it was: the share
  \<open>c + (c / W) * 0.9 * L\<close> of the claim is not credited, whatever the user has staked.
\<close>

theorem networked_backer_unpaid:
  assumes "\<forall>x\<in>set inputs. from_client (snd x)"
    and "\<forall>a\<in>set (arenas (fst (run inputs init))).
           opId a \<noteq> user_id u \<and> (\<forall>r\<in>set (roasts a). roasterId r \<noteq> user_id u)"
    and "currentUser c = Some u"
  shows "(\<forall>a\<in>set (arenas (fst (run inputs init))). \<forall>r\<in>set (roasts a). myBackedAmount r = 0)
       \<and> (\<forall>a\<in>set (arenas (fst (run inputs init))). processPayout (Some u) a = Some u)
       \<and> currentUser (on_state_update (arenas (fst (run inputs init))) c) = Some u"
proof -
  let ?as = "arenas (fst (run inputs init))"
  have "untracked (arenas init)" by (simp add: untracked_def init_def)
  then have u: "untracked ?as" using assms(1) by (rule run_untracked)
  have p: "\<forall>a\<in>set ?as. processPayout (Some u) a = Some u"
  proof
    fix a assume a: "a \<in> set ?as"
    show "processPayout (Some u) a = Some u"
      using u assms(2) a by (intro processPayout_unpaid) (auto simp: untracked_def)
  qed
  have "currentUser (on_state_update ?as c) = Some u"
    using assms(3) payouts_unpaid [OF p] by (simp add: on_state_update_def)
  with u p show ?thesis by (simp add: untracked_def)
qed

theorem networked_backer_unpaid_witness:
  "snd (handleStakeOnRoast ''k3x9qz'' ''ra'' joined_client)
     = Some (StakeRoast ''k3x9qz'' ''ra'' (5 / 100) ''@riya'')
   \<and> map myBackedAmount
       (roasts (clientArenas (fst (handleStakeOnRoast ''k3x9qz'' ''ra'' joined_client)) ! 0))
       = [5 / 100, 0]
   \<and> list_all (\<lambda>x. from_client (snd x)) settled_inputs
   \<and> status (arenas (fst (run settled_inputs init)) ! 0) = Resolved
   \<and> winnerRoastId (arenas (fst (run settled_inputs init)) ! 0) = Some ''ra''
   \<and> map backedStake (roasts (arenas (fst (run settled_inputs init)) ! 0)) = [5 / 100, 0]
   \<and> map myBackedAmount (roasts (arenas (fst (run settled_inputs init)) ! 0)) = [0, 0]
   \<and> status (prevArenas staked_client ! 0) = Active
   \<and> currentUser staked_client = Some (backer\<lparr>balance := balance backer - 5 / 100\<rparr>)
   \<and> currentUser (on_state_update (arenas (fst (run settled_inputs init))) staked_client)
       = Some (backer\<lparr>balance := balance backer - 5 / 100\<rparr>)"
proof -
  let ?u = "backer\<lparr>balance := balance backer - 5 / 100\<rparr>"
  have h1: "\<forall>x\<in>set settled_inputs. from_client (snd x)"
    by (simp add: settled_inputs_def staked_inputs_def first_inputs_def roast_a_def roast_b_def)
  have h2: "\<forall>a\<in>set (arenas (fst (run settled_inputs init))).
      opId a \<noteq> user_id ?u \<and> (\<forall>r\<in>set (roasts a). roasterId r \<noteq> user_id ?u)"
    by (simp add: settled_arenas net_fixtures)
  have h3: "currentUser staked_client = Some ?u" by (simp add: staked_client_eq)
  note th = networked_backer_unpaid [OF h1 h2 h3]
  have click: "snd (handleStakeOnRoast ''k3x9qz'' ''ra'' joined_client)
       = Some (StakeRoast ''k3x9qz'' ''ra'' (5 / 100) ''@riya'')"
    "map myBackedAmount
       (roasts (clientArenas (fst (handleStakeOnRoast ''k3x9qz'' ''ra'' joined_client)) ! 0))
       = [5 / 100, 0]"
    by (simp_all add: stake_click net_fixtures)
  have srv: "status (arenas (fst (run settled_inputs init)) ! 0) = Resolved"
    "winnerRoastId (arenas (fst (run settled_inputs init)) ! 0) = Some ''ra''"
    "map backedStake (roasts (arenas (fst (run settled_inputs init)) ! 0)) = [5 / 100, 0]"
    "map myBackedAmount (roasts (arenas (fst (run settled_inputs init)) ! 0)) = [0, 0]"
    by (simp_all add: settled_arenas net_fixtures)
  have prev: "status (prevArenas staked_client ! 0) = Active"
    by (simp add: staked_client_eq bait_arena_def)
  have h1': "list_all (\<lambda>x. from_client (snd x)) settled_inputs"
    using h1 by (simp add: list_all_iff)
  from th have "currentUser (on_state_update (arenas (fst (run settled_inputs init))) staked_client)
      = Some ?u" by blast
  with click h1' srv prev h3 show ?thesis by blast
qed

section \<open>Messages the server does not reject\<close>

text \<open>
  Claim C2, as the code has it. Neither \<^verbatim>\<open>submit-roast\<close> nor \<^verbatim>\<open>stake-roast\<close> looks at
  the status of an arena or reports a failure. For every arena of the store whose id is
  the given one, \<open>Resolved\<close> or \<open>Active\<close>, \<^verbatim>\<open>submit-roast\<close> appends the roast to its list
  and \<^verbatim>\<open>stake-roast\<close> adds the amount to the \<open>backedStake\<close> of its roasts with the given
  roast id; nothing else of the arena changes. Either handler logs one activity entry
  and emits the new collection.
\<close>

theorem submit_and_stake_ignore_status:
  assumes "n < length (arenas s)" and "arena_id (arenas s ! n) = arenaId"
  shows "arenas (fst (submit_roast env arenaId roastData s)) ! n
           = (arenas s ! n)\<lparr>roasts := roasts (arenas s ! n) @ [roastData]\<rparr>
       \<and> arenas (fst (stake_roast env arenaId roastId amount userHandle s)) ! n
           = (arenas s ! n)\<lparr>roasts :=
                map (\<lambda>roast. if roast_id roast = roastId
                      then roast\<lparr>backedStake := backedStake roast + amount\<rparr> else roast)
                  (roasts (arenas s ! n))\<rparr>
       \<and> snd (submit_roast env arenaId roastData s)
           = [ActivityUpdate (submit_log env roastData),
              StateUpdate (arenas (fst (submit_roast env arenaId roastData s)))]
       \<and> snd (stake_roast env arenaId roastId amount userHandle s)
           = [ActivityUpdate (stake_log env amount userHandle),
              StateUpdate (arenas (fst (stake_roast env arenaId roastId amount userHandle s)))]"
proof -
  have r: "(\<lambda>roast. if roast_id roast \<noteq> roastId then roast
               else roast\<lparr>backedStake := backedStake roast + amount\<rparr>)
         = (\<lambda>roast. if roast_id roast = roastId
               then roast\<lparr>backedStake := backedStake roast + amount\<rparr> else roast)"
    by auto
  show ?thesis
    using assms by (simp add: submit_roast_arenas stake_roast_arenas submit_roast_events
        stake_roast_events r)
qed

theorem submit_and_stake_ignore_status_witness:
  "status (arenas resolved_store ! 0) = Resolved
   \<and> arena_id (arenas resolved_store ! 0) = ''a1''
   \<and> roasts (arenas (fst (submit_roast (env_at 300500) ''a1'' late_roast resolved_store)) ! 0)
       = [mock_r1, mock_r2, late_roast]
   \<and> roasts (arenas (fst (stake_roast (env_at 300500) ''a1'' ''r2'' (5 / 100) ''@riya''
         resolved_store)) ! 0)
       = [mock_r1, mock_r2\<lparr>backedStake := 9 / 100\<rparr>]
   \<and> status (arenas (fst (submit_roast (env_at 300500) ''a1'' late_roast resolved_store)) ! 0)
       = Resolved"
proof -
  have h1: "0 < length (arenas resolved_store)" by (simp add: resolved_store_arenas)
  have h2: "arena_id (arenas resolved_store ! 0) = ''a1''"
    by (simp add: resolved_store_arenas mock_arena_def)
  note th = submit_and_stake_ignore_status [OF h1 h2, of "env_at 300500" late_roast "''r2''"
      "5 / 100" "''@riya''"]
  have st: "status (arenas resolved_store ! 0) = Resolved"
    by (simp add: resolved_store_arenas)
  have rs: "roasts (arenas resolved_store ! 0) = [mock_r1, mock_r2]"
    by (simp add: resolved_store_arenas mock_arena_def)
  have m: "map (\<lambda>roast. if roast_id roast = ''r2''
                then roast\<lparr>backedStake := backedStake roast + 5 / 100\<rparr> else roast)
             [mock_r1, mock_r2] = [mock_r1, mock_r2\<lparr>backedStake := 9 / 100\<rparr>]"
    by (simp add: mock_r1_def mock_r2_def)
  show ?thesis using th st h2 rs m by simp
qed

text \<open>
  The claim as the specification states it fails: the mock arena, resolved by the tick
  at its deadline, still takes a roast and a stake that arrive half a second later.
\<close>

theorem resolved_arena_rejects_mutation_counterexample:
  "status (arenas resolved_store ! 0) = Resolved
   \<and> roasts (arenas (fst (submit_roast (env_at 300500) ''a1'' late_roast resolved_store)) ! 0)
       \<noteq> roasts (arenas resolved_store ! 0)
   \<and> backedStake (roasts (arenas resolved_store ! 0) ! 1) = 4 / 100
   \<and> backedStake (roasts (arenas (fst (stake_roast (env_at 300500) ''a1'' ''r2'' (5 / 100)
         ''@riya'' resolved_store)) ! 0) ! 1) = 9 / 100
   \<and> snd (submit_roast (env_at 300500) ''a1'' late_roast resolved_store)
       = [ActivityUpdate \<lparr>log_id = ''0.42'',
            message = ''Aman entered the arena with a roast.'', timestamp = 300500\<rparr>,
          StateUpdate [(mock_arena 0 [mock_r1, mock_r2, late_roast])
            \<lparr>status := Resolved, winnerRoastId := Some ''r1''\<rparr>]]"
  by (simp add: submit_roast_arenas stake_roast_arenas submit_roast_events submit_log_def
      resolved_store_arenas fixtures)

text \<open>
  Claim C5, as the code has it. When no arena of the store has the given id,
  \<^verbatim>\<open>submit-roast\<close> and \<^verbatim>\<open>stake-roast\<close> leave the collection as it is, and report no
  failure: each still puts its activity entry in front of the log and still emits that
  entry and the unchanged collection to all sockets.
\<close>

theorem unknown_arena_still_broadcasts:
  assumes "\<forall>a\<in>set (arenas s). arena_id a \<noteq> arenaId"
  shows "arenas (fst (submit_roast env arenaId roastData s)) = arenas s
       \<and> activityLog (fst (submit_roast env arenaId roastData s))
           = take 15 (submit_log env roastData # activityLog s)
       \<and> snd (submit_roast env arenaId roastData s)
           = [ActivityUpdate (submit_log env roastData), StateUpdate (arenas s)]
       \<and> arenas (fst (stake_roast env arenaId roastId amount userHandle s)) = arenas s
       \<and> activityLog (fst (stake_roast env arenaId roastId amount userHandle s))
           = take 15 (stake_log env amount userHandle # activityLog s)
       \<and> snd (stake_roast env arenaId roastId amount userHandle s)
           = [ActivityUpdate (stake_log env amount userHandle), StateUpdate (arenas s)]"
proof -
  have 1: "arenas (fst (submit_roast env arenaId roastData s)) = arenas s"
    using assms by (simp add: submit_roast_arenas map_fixed)
  have 2: "arenas (fst (stake_roast env arenaId roastId amount userHandle s)) = arenas s"
    using assms by (simp add: stake_roast_arenas map_fixed)
  show ?thesis
    using 1 2 by (simp add: submit_roast_events stake_roast_events submit_roast_log
        stake_roast_log)
qed

theorem unknown_arena_still_broadcasts_witness:
  "list_all (\<lambda>a. arena_id a \<noteq> ''zz'') (arenas resolved_store)
   \<and> arenas (fst (submit_roast (env_at 300500) ''zz'' late_roast resolved_store))
       = arenas resolved_store
   \<and> snd (stake_roast (env_at 300500) ''zz'' ''r2'' (5 / 100) ''@riya'' resolved_store)
       = [ActivityUpdate \<lparr>log_id = ''0.42'', message = ''@riya staked 0.05 MND on a roast!'',
            timestamp = 300500\<rparr>,
          StateUpdate (arenas resolved_store)]"
proof -
  have h: "\<forall>a\<in>set (arenas resolved_store). arena_id a \<noteq> ''zz''"
    by (simp add: resolved_store_arenas mock_arena_def)
  note th = unknown_arena_still_broadcasts [OF h, of "env_at 300500" late_roast "''r2''"
      "5 / 100" "''@riya''"]
  have l: "stake_log (env_at 300500) (5 / 100) ''@riya''
      = \<lparr>log_id = ''0.42'', message = ''@riya staked 0.05 MND on a roast!'',
          timestamp = 300500\<rparr>"
    by (simp add: stake_log_def env_at_def)
  have h': "list_all (\<lambda>a. arena_id a \<noteq> ''zz'') (arenas resolved_store)"
    using h by (simp add: list_all_iff)
  show ?thesis using th h' unfolding l by simp
qed

text \<open>
  The claim as the specification states it fails: a roast sent to an arena id that the
  store does not hold changes the activity log and is followed by a broadcast of the
  arena collection.
\<close>

theorem unknown_arena_no_broadcast_counterexample:
  "arenas init = []
   \<and> snd (submit_roast (env_at 300500) ''zz'' late_roast init)
       = [ActivityUpdate \<lparr>log_id = ''0.42'',
            message = ''Aman entered the arena with a roast.'', timestamp = 300500\<rparr>,
          StateUpdate []]
   \<and> activityLog (fst (submit_roast (env_at 300500) ''zz'' late_roast init))
       \<noteq> activityLog init"
  by (simp add: submit_roast_arenas submit_roast_events submit_roast_log submit_log_def
      init_def env_at_def late_roast_def)

end
